theory Spec2Isabelle
  imports Main "HOL-Library.AList" "HOL-Library.Sublist"
begin

section \<open>Values, exceptions and outcomes\<close>

text \<open>
  The daemon of \<^verbatim>\<open>src/daemons/base.py\<close> receives JSON over HTTP and hands the decoded
  values to its methods unchanged, so the Python values of the model are JSON values.
  Numbers are integers here; strings are lists of 8-bit characters. A JSON object is a
  Python dict: an association list in insertion order whose keys are distinct.
\<close>

datatype json =
    JNull
  | JBool bool
  | JNum int
  | JStr string
  | JArr "json list"
  | JObj "(string \<times> json) list"

text \<open>
  The exceptions the code can raise, all subclasses of Python's \<^verbatim>\<open>Exception\<close>.
  \<^verbatim>\<open>LibraryError\<close> stands for whatever the wallet library or a daemon-specific
  handler raises.
\<close>

datatype exn =
    KeyError
  | TypeError
  | ValueError
  | AttributeError
  | UnboundLocalError
  | BinasciiError
  | JSONDecodeError
  | LibraryError string

text \<open>
  A call returns a value, raises, or never returns (the synchronisation loop of
  \<^verbatim>\<open>load_wallet\<close> has no timeout).
\<close>

datatype 'a outcome = Returns 'a | Raises exn | Hangs

text \<open>Python truth value of a JSON value, as tested by \<^verbatim>\<open>if not x\<close>.\<close>

fun truthy :: "json \<Rightarrow> bool" where
  "truthy JNull = False"
| "truthy (JBool b) = b"
| "truthy (JNum n) = (n \<noteq> 0)"
| "truthy (JStr s) = (s \<noteq> [])"
| "truthy (JArr xs) = (xs \<noteq> [])"
| "truthy (JObj kvs) = (kvs \<noteq> [])"

text \<open>
  Members of a Python set are hashable values. \<^verbatim>\<open>True == 1\<close> and \<^verbatim>\<open>False == 0\<close> hold
  in Python with equal hashes, so a boolean is the same set member as its number.
  Lists and dicts are unhashable.
\<close>

datatype tag = TNone | TInt int | TStr string

fun to_tag :: "json \<Rightarrow> tag option" where
  "to_tag JNull = Some TNone"
| "to_tag (JBool b) = Some (TInt (if b then 1 else 0))"
| "to_tag (JNum n) = Some (TInt n)"
| "to_tag (JStr s) = Some (TStr s)"
| "to_tag (JArr xs) = None"
| "to_tag (JObj kvs) = None"

text \<open>\<^verbatim>\<open>for x in v\<close>: the elements Python iterates over, or \<open>None\<close> when \<open>v\<close> is not iterable.\<close>

fun py_iter :: "json \<Rightarrow> json list option" where
  "py_iter (JArr xs) = Some xs"
| "py_iter (JStr s) = Some (map (\<lambda>c. JStr [c]) s)"
| "py_iter (JObj kvs) = Some (map (\<lambda>kv. JStr (fst kv)) kvs)"
| "py_iter JNull = None"
| "py_iter (JBool b) = None"
| "py_iter (JNum n) = None"

text \<open>
  \<^verbatim>\<open>i in v\<close> for a set member \<open>i\<close>: equality against the elements of a list, the
  substring test against a string (which raises unless \<open>i\<close> is a string), key membership
  in a dict, and \<^verbatim>\<open>TypeError\<close> for a value that is no container.
\<close>

fun py_in :: "tag \<Rightarrow> json \<Rightarrow> exn + bool" where
  "py_in i (JArr xs) = Inr (Some i \<in> set (map to_tag xs))"
| "py_in i (JStr s) = (case i of TStr t \<Rightarrow> Inr (sublist t s) | _ \<Rightarrow> Inl TypeError)"
| "py_in i (JObj kvs) = Inr (i \<in> set (map (\<lambda>kv. TStr (fst kv)) kvs))"
| "py_in i JNull = Inl TypeError"
| "py_in i (JBool b) = Inl TypeError"
| "py_in i (JNum n) = Inl TypeError"

section \<open>The daemon's state\<close>

text \<open>
  A wallet object of the library: its identity (Python compares wallet objects by identity)
  and the path of its storage.
\<close>

datatype wallet_obj = WalletObj (ident: nat) (storage_path: string)

text \<open>An entry of \<^verbatim>\<open>self.wallets\<close>: the wallet, its command runner and its configuration.\<close>

record wallet_data =
  wallet :: wallet_obj
  cmd :: nat
  config :: nat

text \<open>
  The three dicts of \<^verbatim>\<open>BaseDaemon.__init__\<close> (lines 78 to 80), the library daemon's own
  wallet map (line 125), and the number of objects constructed so far: a constructor call
  yields an object whose identity differs from every earlier one.
\<close>

record daemon =
  wallets :: "(string \<times> wallet_data) list"
  wallets_config :: "(string \<times> tag set) list"
  wallets_updates :: "(string \<times> json list) list"
  daemon_wallets :: "(string \<times> wallet_obj) list"
  next_ref :: nat

definition init_daemon :: daemon where
  "init_daemon = \<lparr>wallets = [], wallets_config = [], wallets_updates = [],
     daemon_wallets = [], next_ref = 0\<rparr>"

text \<open>
  \<^verbatim>\<open>d[k]\<close> on one of the dicts, whose keys are strings: an unhashable \<open>k\<close> raises
  \<^verbatim>\<open>TypeError\<close>, a missing one \<^verbatim>\<open>KeyError\<close>. The key comes back with the value, for the
  write that follows the read.
\<close>

fun dict_item :: "(string \<times> 'v) list \<Rightarrow> json \<Rightarrow> exn + (string \<times> 'v)" where
  "dict_item d (JStr k) = (case map_of d k of None \<Rightarrow> Inl KeyError | Some v \<Rightarrow> Inr (k, v))"
| "dict_item d (JArr xs) = Inl TypeError"
| "dict_item d (JObj kvs) = Inl TypeError"
| "dict_item d JNull = Inl KeyError"
| "dict_item d (JBool b) = Inl KeyError"
| "dict_item d (JNum n) = Inl KeyError"

section \<open>The built-in methods\<close>

text \<open>
  \<^verbatim>\<open>get_updates\<close> (lines 242 to 245): read the queue, replace it by a new empty list,
  return what was read.
\<close>

definition get_updates :: "json \<Rightarrow> daemon \<Rightarrow> json outcome \<times> daemon" where
  "get_updates wallet_id st =
     (case dict_item (wallets_updates st) wallet_id of
        Inl e \<Rightarrow> (Raises e, st)
      | Inr (k, updates) \<Rightarrow>
          (Returns (JArr updates),
           st\<lparr>wallets_updates := AList.update k [] (wallets_updates st)\<rparr>))"

text \<open>
  \<^verbatim>\<open>set.update(events)\<close> adds the elements one by one; at an unhashable element it raises,
  and the elements added before it stay in the set.
\<close>

fun set_update :: "json list \<Rightarrow> tag set \<Rightarrow> exn option \<times> tag set" where
  "set_update [] S = (None, S)"
| "set_update (e # es) S =
     (case to_tag e of
        None \<Rightarrow> (Some TypeError, S)
      | Some t \<Rightarrow> set_update es (insert t S))"

text \<open>\<^verbatim>\<open>subscribe\<close> (lines 247 and 248).\<close>

definition subscribe :: "json \<Rightarrow> json \<Rightarrow> daemon \<Rightarrow> json outcome \<times> daemon" where
  "subscribe events wallet_id st =
     (case dict_item (wallets_config st) wallet_id of
        Inl e \<Rightarrow> (Raises e, st)
      | Inr (k, S) \<Rightarrow>
          (case py_iter events of
             None \<Rightarrow> (Raises TypeError, st)
           | Some es \<Rightarrow>
               (case set_update es S of
                  (err, S') \<Rightarrow>
                    ((case err of None \<Rightarrow> Returns JNull | Some e \<Rightarrow> Raises e),
                     st\<lparr>wallets_config := AList.update k S' (wallets_config st)\<rparr>))))"

text \<open>
  \<^verbatim>\<open>unsubscribe\<close> (lines 250 to 255). With no events given, \<open>events\<close> becomes
  \<^verbatim>\<open>self.EVENT_MAPPING.keys()\<close>; the event mapping is a class attribute that concrete
  daemons fill in, a parameter here. The new set is built before it is stored, so a
  membership test that raises leaves the state as it was.
\<close>

definition unsubscribe_member :: "(string \<times> string) list \<Rightarrow> json \<Rightarrow> tag \<Rightarrow> exn + bool" where
  "unsubscribe_member event_mapping events i =
     (if events = JNull then Inr (i \<in> set (map (\<lambda>kv. TStr (fst kv)) event_mapping))
      else py_in i events)"

definition unsubscribe ::
  "(string \<times> string) list \<Rightarrow> json \<Rightarrow> json \<Rightarrow> daemon \<Rightarrow> json outcome \<times> daemon" where
  "unsubscribe event_mapping events wallet_id st =
     (case dict_item (wallets_config st) wallet_id of
        Inl e \<Rightarrow> (Raises e, st)
      | Inr (k, S) \<Rightarrow>
          (if \<exists>i\<in>S. isl (unsubscribe_member event_mapping events i)
           then (Raises TypeError, st)
           else (Returns JNull,
                 st\<lparr>wallets_config :=
                      AList.update k
                        {i \<in> S. unsubscribe_member event_mapping events i = Inr False}
                        (wallets_config st)\<rparr>)))"

section \<open>What the daemon takes from outside\<close>

text \<open>
  A call as Python binds it: positional arguments and keyword arguments.
\<close>

datatype call = Call (args: "json list") (kwargs: "(string \<times> json) list")

text \<open>
  \<^verbatim>\<open>BaseDaemon\<close> is a base class. Its class attributes are set by the concrete daemon and
  its collaborators are library code, so they are parameters of the model:
  the credentials read at construction (lines 41 and 42), the event mapping (line 29),
  the hook \<^verbatim>\<open>process_events\<close> that \<^verbatim>\<open>_process_events\<close> awaits (line 231), the methods marked
  with \<^verbatim>\<open>@rpc\<close> (lines 61 to 65), the base64 decoder (line 132), the command runner's
  attributes and the command table (lines 189 and 202), and the paths of lines 112 to 125.
\<close>

record env =
  LOGIN :: string
  PASSWORD :: string
  EVENT_MAPPING :: "(string \<times> string) list"
  process_events ::
    "string option \<Rightarrow> json list \<Rightarrow> exn + ((string \<times> json) list option \<times> wallet_obj option)"
  supported_methods :: "(string \<times> (call \<Rightarrow> daemon \<Rightarrow> json outcome \<times> daemon)) list"
  b64decode :: "string \<Rightarrow> exn + string"
  cmd_hasattr :: "string \<Rightarrow> bool"
  known_commands :: "(string \<times> bool) list"
  cmd_call :: "string \<Rightarrow> call \<Rightarrow> json outcome"
  wallet_path_of :: "string \<Rightarrow> string"
  standardize_path :: "string \<Rightarrow> string"

section \<open>The event bus adapter\<close>

text \<open>\<^verbatim>\<open>d.update(other)\<close>: a key already there keeps its place, a new one goes last.\<close>

definition dict_update :: "(string \<times> json) list \<Rightarrow> (string \<times> json) list \<Rightarrow> (string \<times> json) list" where
  "dict_update d other = foldl (\<lambda>acc kv. AList.update (fst kv) (snd kv) acc) d other"

fun tag_of_event :: "string option \<Rightarrow> tag" where
  "tag_of_event None = TNone"
| "tag_of_event (Some s) = TStr s"

fun json_of_event :: "string option \<Rightarrow> json" where
  "json_of_event None = JNull"
| "json_of_event (Some s) = JStr s"

text \<open>
  The two tests of lines 238 and 239 for the session \<open>i\<close>. The wallet entry is read only
  when the event has an origin wallet (\<^verbatim>\<open>or\<close> short-circuits).
\<close>

definition event_for_session :: "tag \<Rightarrow> wallet_obj option \<Rightarrow> daemon \<Rightarrow> string \<Rightarrow> exn + bool" where
  "event_for_session mapped_event origin st i =
     (case map_of (wallets_config st) i of
        None \<Rightarrow> Inl KeyError
      | Some S \<Rightarrow>
          if mapped_event \<in> S then
            (case origin of
               None \<Rightarrow> Inr True
             | Some w \<Rightarrow>
                 (case map_of (wallets st) i of
                    None \<Rightarrow> Inl KeyError
                  | Some d \<Rightarrow> Inr (ident w = ident (wallet d))))
          else Inr False)"

text \<open>Line 240: \<^verbatim>\<open>self.wallets_updates[i].append(data)\<close>.\<close>

definition enqueue :: "string \<Rightarrow> json \<Rightarrow> daemon \<Rightarrow> exn + daemon" where
  "enqueue i data st =
     (case map_of (wallets_updates st) i of
        None \<Rightarrow> Inl KeyError
      | Some q \<Rightarrow> Inr (st\<lparr>wallets_updates := AList.update i (q @ [data]) (wallets_updates st)\<rparr>))"

text \<open>The loop of lines 237 to 240 over the keys of \<^verbatim>\<open>self.wallets_config\<close>.\<close>

fun deliver ::
  "tag \<Rightarrow> wallet_obj option \<Rightarrow> json \<Rightarrow> string list \<Rightarrow> daemon \<Rightarrow> unit outcome \<times> daemon" where
  "deliver mapped_event origin data [] st = (Returns (), st)"
| "deliver mapped_event origin data (i # rest) st =
     (case event_for_session mapped_event origin st i of
        Inl e \<Rightarrow> (Raises e, st)
      | Inr wanted \<Rightarrow>
          if wanted then
            (case enqueue i data st of
               Inl e \<Rightarrow> (Raises e, st)
             | Inr st' \<Rightarrow> deliver mapped_event origin data rest st')
          else deliver mapped_event origin data rest st)"

text \<open>
  \<^verbatim>\<open>_process_events\<close> (lines 227 to 240), the callback registered with the network. The
  record delivered is \<^verbatim>\<open>{"event": mapped_event}\<close> updated with the hook's payload.
\<close>

definition event_record :: "string option \<Rightarrow> (string \<times> json) list \<Rightarrow> json" where
  "event_record mapped_event data_got =
     JObj (dict_update [(''event'', json_of_event mapped_event)] data_got)"

definition private_process_events ::
  "env \<Rightarrow> string \<Rightarrow> json list \<Rightarrow> daemon \<Rightarrow> unit outcome \<times> daemon" where
  "private_process_events env event event_args st =
     (let mapped_event = map_of (EVENT_MAPPING env) event in
      case process_events env mapped_event event_args of
        Inl e \<Rightarrow> (Returns (), st)
      | Inr (data_got, origin) \<Rightarrow>
          (case data_got of
             None \<Rightarrow> (Returns (), st)
           | Some payload \<Rightarrow>
               deliver (tag_of_event mapped_event) origin (event_record mapped_event payload)
                 (map fst (wallets_config st)) st))"

section \<open>The wallet session registry\<close>

text \<open>
  What the library and the file system do during one call of \<^verbatim>\<open>load_wallet\<close>:
  whether building the configuration and the command runner raises (lines 102 to 108),
  whether the wallet file exists (line 114), whether \<^verbatim>\<open>restore\<close> raises (line 116),
  whether opening the storage, building the wallet or starting its network raises
  (lines 117 to 119), and how many times \<^verbatim>\<open>is_up_to_date()\<close> answers false before it
  answers true (line 120), \<open>None\<close> when it never does.
\<close>

record load_ext =
  prepare :: "exn option"
  path_exists :: bool
  restore :: "exn option"
  open_wallet :: "exn option"
  sync_polls :: "nat option"

text \<open>\<^verbatim>\<open>xpub in self.wallets\<close> and the read of line 100.\<close>

fun registered :: "daemon \<Rightarrow> json \<Rightarrow> exn + wallet_data option" where
  "registered st (JStr k) = Inr (map_of (wallets st) k)"
| "registered st (JArr xs) = Inl TypeError"
| "registered st (JObj kvs) = Inl TypeError"
| "registered st JNull = Inr None"
| "registered st (JBool b) = Inr None"
| "registered st (JNum n) = Inr None"

text \<open>Lines 122 to 125: the session is stored with an empty subscription set and queue.\<close>

definition load_wallet_register :: "env \<Rightarrow> string \<Rightarrow> wallet_data \<Rightarrow> daemon \<Rightarrow> daemon" where
  "load_wallet_register env xpub wd st =
     st\<lparr>wallets := AList.update xpub wd (wallets st),
        wallets_config := AList.update xpub {} (wallets_config st),
        wallets_updates := AList.update xpub [] (wallets_updates st),
        daemon_wallets :=
          AList.update (standardize_path env (wallet_path_of env xpub)) (wallet wd)
            (daemon_wallets st)\<rparr>"

text \<open>
  A call of \<^verbatim>\<open>load_wallet\<close> either finishes or is suspended in \<^verbatim>\<open>asyncio.sleep\<close>
  (line 121) holding the wallet it has built; other tasks of the event loop run until it
  is resumed.
\<close>

datatype load_progress =
    Finished "(wallet_obj option \<times> nat \<times> nat) outcome"
  | Polling string wallet_data

text \<open>
  Lines 99 to 120, up to the first test of the loop condition. The configuration, the
  command runner and the wallet are new objects. \<^verbatim>\<open>os.path.join\<close> raises for an
  identifier that is not a string.
\<close>

definition load_wallet_begin :: "env \<Rightarrow> load_ext \<Rightarrow> json \<Rightarrow> daemon \<Rightarrow> load_progress \<times> daemon" where
  "load_wallet_begin env ext xpub st =
     (case registered st xpub of
        Inl e \<Rightarrow> (Finished (Raises e), st)
      | Inr (Some wd) \<Rightarrow> (Finished (Returns (Some (wallet wd), cmd wd, config wd)), st)
      | Inr None \<Rightarrow>
          (case prepare ext of
             Some e \<Rightarrow> (Finished (Raises e), st)
           | None \<Rightarrow>
               (let new_config = next_ref st;
                    command_runner = next_ref st + 1;
                    st1 = st\<lparr>next_ref := next_ref st + 2\<rparr>
                in if \<not> truthy xpub then (Finished (Returns (None, command_runner, new_config)), st1)
                   else
                     (case xpub of
                        JStr x \<Rightarrow>
                          (case (if path_exists ext then None else restore ext) of
                             Some e \<Rightarrow> (Finished (Raises e), st1)
                           | None \<Rightarrow>
                               (case open_wallet ext of
                                  Some e \<Rightarrow> (Finished (Raises e), st1)
                                | None \<Rightarrow>
                                    (let wd = \<lparr>wallet = WalletObj (next_ref st1) (wallet_path_of env x),
                                               cmd = command_runner, config = new_config\<rparr>;
                                         st2 = st1\<lparr>next_ref := next_ref st1 + 1\<rparr>
                                     in if sync_polls ext = Some 0
                                        then (Finished (Returns (Some (wallet wd), cmd wd, config wd)),
                                              load_wallet_register env x wd st2)
                                        else (Polling x wd, st2))))
                      | _ \<Rightarrow> (Finished (Raises TypeError), st1)))))"

text \<open>Line 121 onwards, when the loop condition has become false: lines 122 to 126.\<close>

definition load_wallet_resume ::
  "env \<Rightarrow> string \<Rightarrow> wallet_data \<Rightarrow> daemon \<Rightarrow> (wallet_obj option \<times> nat \<times> nat) outcome \<times> daemon" where
  "load_wallet_resume env x wd st =
     (Returns (Some (wallet wd), cmd wd, config wd), load_wallet_register env x wd st)"

text \<open>
  \<^verbatim>\<open>load_wallet\<close> (lines 98 to 126) run with no other task in between. A wallet that never
  reports itself up to date keeps the call in the loop for ever.
\<close>

definition load_wallet ::
  "env \<Rightarrow> load_ext \<Rightarrow> json \<Rightarrow> daemon \<Rightarrow> (wallet_obj option \<times> nat \<times> nat) outcome \<times> daemon" where
  "load_wallet env ext xpub st =
     (case load_wallet_begin env ext xpub st of
        (Finished r, st1) \<Rightarrow> (r, st1)
      | (Polling x wd, st1) \<Rightarrow>
          (case sync_polls ext of
             None \<Rightarrow> (Hangs, st1)
           | Some n \<Rightarrow> load_wallet_resume env x wd st1))"

section \<open>The request dispatcher\<close>

text \<open>\<^verbatim>\<open>s.replace(old, "")\<close>: every occurrence of \<open>old\<close>, left to right, is removed.\<close>

function remove_all :: "string \<Rightarrow> string \<Rightarrow> string" where
  "remove_all old [] = []"
| "remove_all old (c # cs) =
     (if old \<noteq> [] \<and> prefix old (c # cs)
      then remove_all old (drop (length old) (c # cs))
      else c # remove_all old cs)"
  by pat_completeness auto
termination
  by (relation "measure (\<lambda>p. length (snd p))") auto

text \<open>\<^verbatim>\<open>s.split(sep)\<close> for a separator of one character.\<close>

fun split_on :: "char \<Rightarrow> string \<Rightarrow> string list" where
  "split_on sep [] = [[]]"
| "split_on sep (c # cs) =
     (if c = sep then [] # split_on sep cs
      else (case split_on sep cs of
              [] \<Rightarrow> [[c]]
            | p # ps \<Rightarrow> (c # p) # ps))"

text \<open>
  \<^verbatim>\<open>decode_auth\<close> (lines 128 to 134). Decoding as latin-1 maps each byte to the character
  of the same code. The last line unpacks the list into two names, which raises
  \<^verbatim>\<open>ValueError\<close> unless the list has exactly two elements.
\<close>

definition decode_auth :: "env \<Rightarrow> string option \<Rightarrow> exn + (string option \<times> string option)" where
  "decode_auth env authstr =
     (case authstr of
        None \<Rightarrow> Inr (None, None)
      | Some s \<Rightarrow>
          if s = [] then Inr (None, None)
          else
            (case b64decode env (remove_all ''Basic '' s) of
               Inl e \<Rightarrow> Inl e
             | Inr decoded_str \<Rightarrow>
                 (case split_on CHR '':'' decoded_str of
                    [user, password] \<Rightarrow> Inr (Some user, Some password)
                  | _ \<Rightarrow> Inl ValueError)))"

text \<open>
  What the handler reads of a request: the \<^verbatim>\<open>Authorization\<close> header, the content type,
  and what awaiting \<^verbatim>\<open>request.json()\<close> gives (the decoded body, or the exception that
  the decoder raises).
\<close>

record request =
  authorization :: "string option"
  content_type :: string
  json_body :: "exn + json"

text \<open>
  The message of an error is a fixed string or the last line of the traceback of the
  exception caught at line 212.
\<close>

datatype message = Literal string | TracebackLastLine exn

text \<open>
  The JSON-RPC answers, each sent by \<^verbatim>\<open>web.json_response\<close> with status 200: the error
  object with its code, message and id, or the result with its id.
\<close>

datatype response = ErrorResponse int message json | ResultResponse json json

text \<open>
  Binding a call to a signature of plain parameters: too many positional arguments, an
  unknown keyword, a parameter given twice or a parameter left without a value raise
  \<^verbatim>\<open>TypeError\<close>.
\<close>

definition bind_args :: "string list \<Rightarrow> (string \<times> json) list \<Rightarrow> call \<Rightarrow> exn + (string \<times> json) list" where
  "bind_args names defaults c =
     (let positional = zip names (args c) in
      if length names < length (args c) then Inl TypeError
      else if \<exists>k\<in>set (map fst (kwargs c)). k \<notin> set names \<or> k \<in> set (map fst positional)
      then Inl TypeError
      else if \<exists>n\<in>set names. n \<notin> set (map fst (positional @ kwargs c @ defaults))
      then Inl TypeError
      else Inr (positional @ kwargs c @ defaults))"

definition bound_arg :: "(string \<times> json) list \<Rightarrow> string \<Rightarrow> json" where
  "bound_arg b n = (case map_of b n of Some v \<Rightarrow> v | None \<Rightarrow> JNull)"

text \<open>
  \<^verbatim>\<open>self.base_methods\<close> (lines 56 to 60): the three built-in methods with their signatures
  \<^verbatim>\<open>get_updates(wallet)\<close>, \<^verbatim>\<open>subscribe(events, wallet=None)\<close> and
  \<^verbatim>\<open>unsubscribe(events=None, wallet=None)\<close>.
\<close>

definition get_updates_method :: "call \<Rightarrow> daemon \<Rightarrow> json outcome \<times> daemon" where
  "get_updates_method c st =
     (case bind_args [''wallet''] [] c of
        Inl e \<Rightarrow> (Raises e, st)
      | Inr b \<Rightarrow> get_updates (bound_arg b ''wallet'') st)"

definition subscribe_method :: "call \<Rightarrow> daemon \<Rightarrow> json outcome \<times> daemon" where
  "subscribe_method c st =
     (case bind_args [''events'', ''wallet''] [(''wallet'', JNull)] c of
        Inl e \<Rightarrow> (Raises e, st)
      | Inr b \<Rightarrow> subscribe (bound_arg b ''events'') (bound_arg b ''wallet'') st)"

definition unsubscribe_method :: "env \<Rightarrow> call \<Rightarrow> daemon \<Rightarrow> json outcome \<times> daemon" where
  "unsubscribe_method env c st =
     (case bind_args [''events'', ''wallet''] [(''events'', JNull), (''wallet'', JNull)] c of
        Inl e \<Rightarrow> (Raises e, st)
      | Inr b \<Rightarrow>
          unsubscribe (EVENT_MAPPING env) (bound_arg b ''events'') (bound_arg b ''wallet'') st)"

definition base_methods :: "env \<Rightarrow> (string \<times> (call \<Rightarrow> daemon \<Rightarrow> json outcome \<times> daemon)) list" where
  "base_methods env =
     [(''get_updates'', get_updates_method),
      (''subscribe'', subscribe_method),
      (''unsubscribe'', unsubscribe_method env)]"

text \<open>
  \<^verbatim>\<open>method in d\<close> and \<^verbatim>\<open>d[method]\<close> for a dict of methods keyed by name: an unhashable
  \<open>method\<close> raises \<^verbatim>\<open>TypeError\<close>.
\<close>

fun method_lookup :: "(string \<times> 'f) list \<Rightarrow> json \<Rightarrow> exn + 'f option" where
  "method_lookup d (JStr k) = Inr (map_of d k)"
| "method_lookup d (JArr xs) = Inl TypeError"
| "method_lookup d (JObj kvs) = Inl TypeError"
| "method_lookup d JNull = Inr None"
| "method_lookup d (JBool b) = Inr None"
| "method_lookup d (JNum n) = Inr None"

text \<open>
  Lines 206 to 209 on a callable made by \<^verbatim>\<open>functools.partial\<close> with the keywords
  \<open>bound\<close>: a list is passed positionally, a dict by keyword (a keyword of the call
  replaces the bound one of the same name); for any other \<open>params\<close> no call is made and
  \<open>result\<close> stays unbound.
\<close>

definition call_of_params :: "(string \<times> json) list \<Rightarrow> json \<Rightarrow> call option" where
  "call_of_params bound params =
     (case params of
        JArr ps \<Rightarrow> Some (Call ps bound)
      | JObj kvs \<Rightarrow> Some (Call [] (dict_update bound kvs))
      | _ \<Rightarrow> None)"

text \<open>Lines 210 to 225: the result is sent, an exception becomes the error of code -32601.\<close>

definition respond :: "json \<Rightarrow> json outcome \<times> daemon \<Rightarrow> response outcome \<times> daemon" where
  "respond rid r =
     (case fst r of
        Returns v \<Rightarrow> (Returns (ResultResponse v rid), snd r)
      | Raises e \<Rightarrow> (Returns (ErrorResponse (- 32601) (TracebackLastLine e) rid), snd r)
      | Hangs \<Rightarrow> (Hangs, snd r))"

text \<open>Lines 198 to 225 for a built-in or custom method: the wallet identifier is bound.\<close>

definition invoke_custom ::
  "(call \<Rightarrow> daemon \<Rightarrow> json outcome \<times> daemon) \<Rightarrow> json \<Rightarrow> json \<Rightarrow> json \<Rightarrow> daemon
     \<Rightarrow> response outcome \<times> daemon" where
  "invoke_custom exec_method rid xpub params st =
     (case call_of_params [(''wallet'', xpub)] params of
        None \<Rightarrow> respond rid (Raises UnboundLocalError, st)
      | Some c \<Rightarrow> respond rid (exec_method c st))"

text \<open>
  Lines 198 to 225 for a command of the library: the storage path of the wallet is bound
  when the command table says that the command requires a wallet.
\<close>

definition invoke_command ::
  "env \<Rightarrow> string \<Rightarrow> json \<Rightarrow> wallet_obj option \<Rightarrow> json \<Rightarrow> daemon \<Rightarrow> response outcome \<times> daemon" where
  "invoke_command env m rid loaded params st =
     (case map_of (known_commands env) m of
        None \<Rightarrow> respond rid (Raises KeyError, st)
      | Some requires_wallet \<Rightarrow>
          (let bound =
                 (if requires_wallet
                  then [(''wallet_path'',
                         (case loaded of None \<Rightarrow> JNull | Some w \<Rightarrow> JStr (storage_path w)))]
                  else [])
           in case call_of_params bound params of
                None \<Rightarrow> respond rid (Raises UnboundLocalError, st)
              | Some c \<Rightarrow> respond rid (cmd_call env m c, st)))"

text \<open>
  Lines 180 to 225. \<open>loaded\<close> is what \<^verbatim>\<open>load_wallet\<close> returned, \<open>None\<close> when it raised (the
  names \<open>wallet\<close> and \<open>cmd\<close> are then unbound). \<^verbatim>\<open>getattr\<close> raises \<^verbatim>\<open>TypeError\<close> for a
  name that is not a string, which line 190 does not catch.
\<close>

definition dispatch ::
  "env \<Rightarrow> json \<Rightarrow> json \<Rightarrow> json \<Rightarrow> json \<Rightarrow> (wallet_obj option \<times> nat \<times> nat) option \<Rightarrow> daemon
     \<Rightarrow> response outcome \<times> daemon" where
  "dispatch env method rid xpub params loaded st =
     (case method_lookup (base_methods env) method of
        Inl e \<Rightarrow> (Raises e, st)
      | Inr (Some exec_method) \<Rightarrow> invoke_custom exec_method rid xpub params st
      | Inr None \<Rightarrow>
          (case method_lookup (supported_methods env) method of
             Inl e \<Rightarrow> (Raises e, st)
           | Inr (Some exec_method) \<Rightarrow> invoke_custom exec_method rid xpub params st
           | Inr None \<Rightarrow>
               (case loaded of
                  None \<Rightarrow> (Raises UnboundLocalError, st)
                | Some (w, command_runner, wallet_config) \<Rightarrow>
                    (case method of
                       JStr m \<Rightarrow>
                         if cmd_hasattr env m then invoke_command env m rid w params st
                         else (Returns (ErrorResponse (- 32601) (Literal ''Procedure not found.'') rid), st)
                     | _ \<Rightarrow> (Raises TypeError, st)))))"

text \<open>\<^verbatim>\<open>data.get(key, default)\<close> on the decoded body.\<close>

definition dict_get :: "(string \<times> json) list \<Rightarrow> string \<Rightarrow> json \<Rightarrow> json" where
  "dict_get d k dflt = (case map_of d k of None \<Rightarrow> dflt | Some v \<Rightarrow> v)"

text \<open>
  The test of line 172, \<^verbatim>\<open>not method in self.supported_methods and not method in
  self.base_methods\<close>, read left to right.
\<close>

definition in_no_tier :: "env \<Rightarrow> json \<Rightarrow> exn + bool" where
  "in_no_tier env method =
     (case method_lookup (supported_methods env) method of
        Inl e \<Rightarrow> Inl e
      | Inr (Some f) \<Rightarrow> Inr False
      | Inr None \<Rightarrow>
          (case method_lookup (base_methods env) method of
             Inl e \<Rightarrow> Inl e
           | Inr (Some f) \<Rightarrow> Inr False
           | Inr None \<Rightarrow> Inr True))"

text \<open>Lines 157 to 225, for a body that decoded to a dict.\<close>

definition handle_parsed ::
  "env \<Rightarrow> load_ext \<Rightarrow> (string \<times> json) list \<Rightarrow> daemon \<Rightarrow> response outcome \<times> daemon" where
  "handle_parsed env ext data st =
     (let method = dict_get data ''method'' JNull;
          rid = dict_get data ''id'' JNull;
          xpub = dict_get data ''xpub'' JNull;
          params = dict_get data ''params'' (JArr [])
      in if \<not> truthy method
         then (Returns (ErrorResponse (- 32601) (Literal ''Procedure not found.'') rid), st)
         else
           (case load_wallet env ext xpub st of
              (Hangs, st1) \<Rightarrow> (Hangs, st1)
            | (Raises e, st1) \<Rightarrow>
                (case in_no_tier env method of
                   Inl e' \<Rightarrow> (Raises e', st1)
                 | Inr none \<Rightarrow>
                     if none
                     then (Returns (ErrorResponse (- 32601) (Literal ''Error loading wallet'') rid), st1)
                     else dispatch env method rid xpub params None st1)
            | (Returns loaded, st1) \<Rightarrow> dispatch env method rid xpub params (Some loaded) st1))"

text \<open>
  \<^verbatim>\<open>handle_request\<close> (lines 136 to 225). An exception raised outside the two \<^verbatim>\<open>try\<close>
  blocks leaves the handler: \<^verbatim>\<open>decode_auth\<close> (line 138), \<^verbatim>\<open>request.json()\<close> (line 148),
  and \<^verbatim>\<open>data.get\<close> (line 157) when the body is not a dict.
\<close>

definition handle_request ::
  "env \<Rightarrow> load_ext \<Rightarrow> request \<Rightarrow> daemon \<Rightarrow> response outcome \<times> daemon" where
  "handle_request env ext req st =
     (case decode_auth env (authorization req) of
        Inl e \<Rightarrow> (Raises e, st)
      | Inr (user, password) \<Rightarrow>
          if \<not> (user = Some (LOGIN env) \<and> password = Some (PASSWORD env))
          then (Returns (ErrorResponse (- 32600) (Literal ''Unauthorized'') JNull), st)
          else if content_type req = ''application/json''
          then
            (case json_body req of
               Inl e \<Rightarrow> (Raises e, st)
             | Inr (JObj data) \<Rightarrow> handle_parsed env ext data st
             | Inr _ \<Rightarrow> (Raises AttributeError, st))
          else (Returns (ErrorResponse (- 32600) (Literal ''Invalid JSON-RPC.'') JNull), st))"

section \<open>Runs of the registry\<close>

text \<open>
  Resolutions one after the other: each call of \<^verbatim>\<open>load_wallet\<close> runs to its end (or
  raises) before the next one starts. A call that hangs is the last one to run.
\<close>

fun load_all :: "env \<Rightarrow> (load_ext \<times> json) list \<Rightarrow> daemon \<Rightarrow> daemon" where
  "load_all env [] st = st"
| "load_all env (c # cs) st =
     (case load_wallet env (fst c) (snd c) st of
        (Hangs, st1) \<Rightarrow> st1
      | (r, st1) \<Rightarrow> load_all env cs st1)"

text \<open>
  Resolutions that overlap. The event loop runs one task at a time and changes task only
  where a task awaits: a call of \<^verbatim>\<open>load_wallet\<close> is started and runs to its end or to
  the sleep of line 121; a call suspended there is resumed when its wallet has become up
  to date, and then runs lines 122 to 126.
\<close>

datatype loop_step = Start load_ext json | Resume nat

fun event_loop_step ::
  "env \<Rightarrow> loop_step \<Rightarrow> daemon \<times> (string \<times> wallet_data) list
     \<Rightarrow> daemon \<times> (string \<times> wallet_data) list" where
  "event_loop_step env (Start ext xpub) (st, suspended) =
     (case load_wallet_begin env ext xpub st of
        (Finished r, st1) \<Rightarrow> (st1, suspended)
      | (Polling x wd, st1) \<Rightarrow> (st1, suspended @ [(x, wd)]))"
| "event_loop_step env (Resume n) (st, suspended) =
     (if n < length suspended
      then (snd (load_wallet_resume env (fst (suspended ! n)) (snd (suspended ! n)) st),
            take n suspended @ drop (Suc n) suspended)
      else (st, suspended))"

definition event_loop ::
  "env \<Rightarrow> loop_step list \<Rightarrow> daemon \<Rightarrow> daemon \<times> (string \<times> wallet_data) list" where
  "event_loop env steps st = foldl (\<lambda>s step. event_loop_step env step s) (st, []) steps"

section \<open>Well-formed registries\<close>

text \<open>
  What \<^verbatim>\<open>__init__\<close> establishes and every resolution that runs alone keeps: the three
  dicts have the same keys, each key once; the empty identifier is no key; different
  identifiers hold different wallet objects, all constructed earlier.
\<close>

definition registry_ok :: "daemon \<Rightarrow> bool" where
  "registry_ok st \<longleftrightarrow>
     distinct (map fst (wallets st)) \<and>
     distinct (map fst (wallets_config st)) \<and>
     distinct (map fst (wallets_updates st)) \<and>
     set (map fst (wallets_config st)) = set (map fst (wallets st)) \<and>
     set (map fst (wallets_updates st)) = set (map fst (wallets st)) \<and>
     [] \<notin> set (map fst (wallets st)) \<and>
     distinct (map (\<lambda>kv. ident (wallet (snd kv))) (wallets st)) \<and>
     (\<forall>kv\<in>set (wallets st). ident (wallet (snd kv)) < next_ref st)"

text \<open>The subscription set and the queue of a session, empty for an unknown identifier.\<close>

definition events_of :: "daemon \<Rightarrow> string \<Rightarrow> tag set" where
  "events_of st w = (case map_of (wallets_config st) w of None \<Rightarrow> {} | Some S \<Rightarrow> S)"

definition queue_of :: "daemon \<Rightarrow> string \<Rightarrow> json list" where
  "queue_of st w = (case map_of (wallets_updates st) w of None \<Rightarrow> [] | Some q \<Rightarrow> q)"

text \<open>
  The public event tags of a daemon: the values of its event mapping, which are the tags
  that \<^verbatim>\<open>_process_events\<close> looks for in a subscription set (lines 228 and 238).
\<close>

definition known_tags :: "env \<Rightarrow> tag set" where
  "known_tags env = set (map (\<lambda>kv. TStr (snd kv)) (EVENT_MAPPING env))"

section \<open>A concrete daemon\<close>

text \<open>
  Base64 as CPython's \<^verbatim>\<open>base64.b64decode\<close> reads it by default: a string with a
  character outside ASCII raises \<^verbatim>\<open>ValueError\<close>; characters outside the alphabet are
  skipped; the padding that completes a group of four ends the data; an incomplete group
  at the end raises \<^verbatim>\<open>binascii.Error\<close>.
\<close>

definition b64_value :: "char \<Rightarrow> nat option" where
  "b64_value c =
     (let n = (of_char c :: nat) in
      if 65 \<le> n \<and> n \<le> 90 then Some (n - 65)
      else if 97 \<le> n \<and> n \<le> 122 then Some (n - 71)
      else if 48 \<le> n \<and> n \<le> 57 then Some (n + 4)
      else if n = 43 then Some 62
      else if n = 47 then Some 63
      else None)"

fun emit :: "nat \<Rightarrow> exn + nat list \<Rightarrow> exn + nat list" where
  "emit b (Inl e) = Inl e"
| "emit b (Inr bs) = Inr (b # bs)"

fun b64_scan :: "string \<Rightarrow> nat \<Rightarrow> nat \<Rightarrow> nat \<Rightarrow> exn + nat list" where
  "b64_scan [] quad_pos leftchar pads = (if quad_pos = 0 then Inr [] else Inl BinasciiError)"
| "b64_scan (c # cs) quad_pos leftchar pads =
     (if c = CHR ''=''
      then (if 2 \<le> quad_pos \<and> 4 \<le> quad_pos + (pads + 1) then Inr []
            else b64_scan cs quad_pos leftchar (if 2 \<le> quad_pos then pads + 1 else pads))
      else
        (case b64_value c of
           None \<Rightarrow> b64_scan cs quad_pos leftchar pads
         | Some v \<Rightarrow>
             if quad_pos = 0 then b64_scan cs 1 v 0
             else if quad_pos = 1 then emit (leftchar * 4 + v div 16) (b64_scan cs 2 (v mod 16) 0)
             else if quad_pos = 2 then emit (leftchar * 16 + v div 4) (b64_scan cs 3 (v mod 4) 0)
             else emit (leftchar * 64 + v) (b64_scan cs 0 0 0)))"

definition py_b64decode :: "string \<Rightarrow> exn + string" where
  "py_b64decode s =
     (if \<exists>c\<in>set s. 128 \<le> (of_char c :: nat) then Inl ValueError
      else (case b64_scan s 0 0 0 of Inl e \<Rightarrow> Inl e | Inr bs \<Rightarrow> Inr (map char_of bs)))"

text \<open>
  A daemon with the default credentials of lines 41 and 42, an event mapping in which a
  raw event kind and its public tag differ (\<^verbatim>\<open>src/worker.py\<close> listens for the public tag
  \<^verbatim>\<open>new_payment\<close>), no custom methods and no library commands. Its hook gives every
  mapped event the same payload and the origin wallet \<open>origin\<close>, and no payload to an
  unmapped one.
\<close>

definition example_hook ::
  "wallet_obj option \<Rightarrow> string option \<Rightarrow> json list
     \<Rightarrow> exn + ((string \<times> json) list option \<times> wallet_obj option)" where
  "example_hook origin mapped_event event_args =
     (case mapped_event of
        None \<Rightarrow> Inr (None, None)
      | Some t \<Rightarrow> Inr (Some [(''tx_hash'', JStr ''ab12'')], origin))"

definition example_env :: "wallet_obj option \<Rightarrow> env" where
  "example_env origin =
     \<lparr>LOGIN = ''electrum'', PASSWORD = ''electrumz'',
      EVENT_MAPPING = [(''payment_received'', ''new_payment''),
                       (''new_transaction'', ''new_transaction'')],
      process_events = example_hook origin,
      supported_methods = [],
      b64decode = py_b64decode,
      cmd_hasattr = (\<lambda>m. False),
      known_commands = [],
      cmd_call = (\<lambda>m c. Raises (LibraryError [])),
      wallet_path_of = (\<lambda>x. ''wallets/'' @ x),
      standardize_path = (\<lambda>p. p)\<rparr>"

text \<open>A hook that has a payload for every event, the unmapped ones included.\<close>

definition eager_hook ::
  "string option \<Rightarrow> json list \<Rightarrow> exn + ((string \<times> json) list option \<times> wallet_obj option)" where
  "eager_hook mapped_event event_args = Inr (Some [(''height'', JNum 7)], None)"

text \<open>
  The outside world of a resolution in which nothing raises and the wallet file exists:
  the wallet is up to date at once, or after two sleeps.
\<close>

definition ext_ready :: load_ext where
  "ext_ready = \<lparr>prepare = None, path_exists = True, restore = None, open_wallet = None,
     sync_polls = Some 0\<rparr>"

definition ext_syncing :: load_ext where
  "ext_syncing = \<lparr>prepare = None, path_exists = True, restore = None, open_wallet = None,
     sync_polls = Some 2\<rparr>"

text \<open>The outside world of a resolution whose \<^verbatim>\<open>restore\<close> fails.\<close>

definition ext_failing :: load_ext where
  "ext_failing = \<lparr>prepare = None, path_exists = False,
     restore = Some (LibraryError ''restore failed''), open_wallet = None, sync_polls = Some 0\<rparr>"

text \<open>A registry with the two sessions \<open>xpubA\<close> and \<open>xpubB\<close>.\<close>

definition two_sessions :: daemon where
  "two_sessions =
     snd (load_wallet (example_env None) ext_ready (JStr ''xpubB'')
       (snd (load_wallet (example_env None) ext_ready (JStr ''xpubA'') init_daemon)))"

text \<open>
  The two sessions after \<open>xpubA\<close> has subscribed to two public tags and \<open>xpubB\<close> to one;
  the two sessions after \<open>xpubA\<close> has subscribed to the list holding \<^verbatim>\<open>null\<close>; and the
  concrete daemon with the hook that has a payload for every event.
\<close>

definition subscribed_sessions :: daemon where
  "subscribed_sessions =
     snd (subscribe (JArr [JStr ''new_payment'']) (JStr ''xpubB'')
       (snd (subscribe (JArr [JStr ''new_payment'', JStr ''new_transaction'']) (JStr ''xpubA'')
          two_sessions)))"

definition null_subscriber :: daemon where
  "null_subscriber = snd (subscribe (JArr [JNull]) (JStr ''xpubA'') two_sessions)"

definition eager_env :: env where
  "eager_env = (example_env None)\<lparr>process_events := eager_hook\<rparr>"

text \<open>
  The concrete daemon with one custom method, as the \<^verbatim>\<open>@rpc\<close> marker registers it
  (lines 61 to 65): it takes the bound wallet identifier and answers without reading it.
\<close>

definition custom_env :: env where
  "custom_env =
     (example_env None)\<lparr>supported_methods := [(''ping'', \<lambda>c st. (Returns (JStr ''pong''), st))]\<rparr>"

section \<open>The concrete registry\<close>

lemma two_sessions_eq:
  "two_sessions =
     \<lparr>wallets = [(''xpubA'', \<lparr>wallet = WalletObj 2 ''wallets/xpubA'', cmd = 1, config = 0\<rparr>),
                 (''xpubB'', \<lparr>wallet = WalletObj 5 ''wallets/xpubB'', cmd = 4, config = 3\<rparr>)],
      wallets_config = [(''xpubA'', {}), (''xpubB'', {})],
      wallets_updates = [(''xpubA'', []), (''xpubB'', [])],
      daemon_wallets = [(''wallets/xpubA'', WalletObj 2 ''wallets/xpubA''),
                        (''wallets/xpubB'', WalletObj 5 ''wallets/xpubB'')],
      next_ref = 6\<rparr>"
  by (simp add: two_sessions_def load_wallet_def load_wallet_begin_def load_wallet_register_def
      load_wallet_resume_def example_env_def ext_ready_def init_daemon_def)

section \<open>Draining the queue\<close>

lemma get_updates_registered:
  "map_of (wallets_updates st) w = Some q \<Longrightarrow>
   get_updates (JStr w) st =
     (Returns (JArr q), st\<lparr>wallets_updates := AList.update w [] (wallets_updates st)\<rparr>)"
  by (simp add: get_updates_def)

text \<open>
  Claim C4. For a registered wallet \<open>w\<close> whose queue \<open>q\<close> is not empty, \<^verbatim>\<open>get_updates(w)\<close>
  returns exactly \<open>q\<close> and leaves the queue of \<open>w\<close> empty, so that a second call with no
  event in between returns the empty sequence.
\<close>

theorem get_updates_drains_once:
  assumes "map_of (wallets_updates st) w = Some q" and "q \<noteq> []"
  shows "fst (get_updates (JStr w) st) = Returns (JArr q) \<and>
         map_of (wallets_updates (snd (get_updates (JStr w) st))) w = Some [] \<and>
         fst (get_updates (JStr w) (snd (get_updates (JStr w) st))) = Returns (JArr [])"
proof -
  let ?st1 = "st\<lparr>wallets_updates := AList.update w [] (wallets_updates st)\<rparr>"
  have first: "get_updates (JStr w) st = (Returns (JArr q), ?st1)"
    using assms(1) by (rule get_updates_registered)
  have emptied: "map_of (wallets_updates ?st1) w = Some []"
    by (simp add: update_conv')
  from emptied have "fst (get_updates (JStr w) ?st1) = Returns (JArr [])"
    by (simp add: get_updates_registered)
  with first emptied show ?thesis by simp
qed

theorem get_updates_drains_once_witness:
  "fst (get_updates (JStr ''xpubA'')
      (two_sessions\<lparr>wallets_updates := [(''xpubA'', [JStr ''e1'', JStr ''e2'']), (''xpubB'', [])]\<rparr>))
     = Returns (JArr [JStr ''e1'', JStr ''e2'']) \<and>
   fst (get_updates (JStr ''xpubA'')
      (snd (get_updates (JStr ''xpubA'')
        (two_sessions\<lparr>wallets_updates := [(''xpubA'', [JStr ''e1'', JStr ''e2'']), (''xpubB'', [])]\<rparr>))))
     = Returns (JArr [])"
  using get_updates_drains_once
    [of "two_sessions\<lparr>wallets_updates := [(''xpubA'', [JStr ''e1'', JStr ''e2'']), (''xpubB'', [])]\<rparr>"
        "''xpubA''" "[JStr ''e1'', JStr ''e2'']"]
  by simp

section \<open>Subscribing\<close>

lemma set_update_strings: "set_update (map JStr xs) S = (None, S \<union> TStr ` set xs)"
  by (induction xs arbitrary: S) auto

lemma subscribe_strings:
  "map_of (wallets_config st) w = Some S \<Longrightarrow>
   subscribe (JArr (map JStr xs)) (JStr w) st =
     (Returns JNull, st\<lparr>wallets_config := AList.update w (S \<union> TStr ` set xs) (wallets_config st)\<rparr>)"
  by (simp add: subscribe_def set_update_strings)

text \<open>
  Claim C8. For a registered wallet \<open>w\<close> with subscription set \<open>S\<close>, \<^verbatim>\<open>subscribe\<close> adds
  tags by set union: after subscribing to the tags \<open>xs\<close> and then to the tags \<open>ys\<close>, both
  calls having returned, the subscription set of \<open>w\<close> is \<open>S\<close> united with \<open>xs\<close> and \<open>ys\<close>.
  For a session with no subscription yet, the tags A, B and then B, C give the set
  A, B, C (the witness below).
\<close>

theorem subscribe_accumulates:
  assumes "map_of (wallets_config st) w = Some S"
  shows "fst (subscribe (JArr (map JStr xs)) (JStr w) st) = Returns JNull \<and>
         fst (subscribe (JArr (map JStr ys)) (JStr w)
                (snd (subscribe (JArr (map JStr xs)) (JStr w) st))) = Returns JNull \<and>
         events_of (snd (subscribe (JArr (map JStr ys)) (JStr w)
                      (snd (subscribe (JArr (map JStr xs)) (JStr w) st)))) w
           = S \<union> TStr ` set xs \<union> TStr ` set ys"
proof -
  let ?st1 = "st\<lparr>wallets_config := AList.update w (S \<union> TStr ` set xs) (wallets_config st)\<rparr>"
  have first: "subscribe (JArr (map JStr xs)) (JStr w) st = (Returns JNull, ?st1)"
    using assms by (rule subscribe_strings)
  have "map_of (wallets_config ?st1) w = Some (S \<union> TStr ` set xs)"
    by (simp add: update_conv')
  then have second: "subscribe (JArr (map JStr ys)) (JStr w) ?st1 =
      (Returns JNull,
       ?st1\<lparr>wallets_config :=
               AList.update w (S \<union> TStr ` set xs \<union> TStr ` set ys) (wallets_config ?st1)\<rparr>)"
    by (rule subscribe_strings)
  show ?thesis
    by (simp add: first second events_of_def update_conv')
qed

theorem subscribe_accumulates_witness:
  "events_of (snd (subscribe (JArr [JStr ''B'', JStr ''C'']) (JStr ''xpubA'')
                (snd (subscribe (JArr [JStr ''A'', JStr ''B'']) (JStr ''xpubA'') two_sessions))))
      ''xpubA''
     = {TStr ''A'', TStr ''B'', TStr ''C''}"
proof -
  have "map_of (wallets_config two_sessions) ''xpubA'' = Some {}"
    by (simp add: two_sessions_eq)
  from subscribe_accumulates [OF this, of "[''A'', ''B'']" "[''B'', ''C'']"]
  show ?thesis by auto
qed


section \<open>Delivering events\<close>


lemma events_of_frame: "events_of (st\<lparr>wallets_updates := u\<rparr>) k = events_of st k"
  by (simp add: events_of_def)

lemma event_for_session_wanted:
  "event_for_session m origin st i = Inr True \<Longrightarrow> m \<in> events_of st i"
  by (auto simp: event_for_session_def events_of_def split: option.splits if_splits)

lemma enqueue_other:
  "enqueue i data st = Inr st' \<Longrightarrow> k \<noteq> i \<Longrightarrow>
   map_of (wallets_updates st') k = map_of (wallets_updates st) k"
  by (auto simp: enqueue_def update_conv' split: option.splits)

lemma enqueue_frame:
  "enqueue i data st = Inr st' \<Longrightarrow>
   st' = st\<lparr>wallets_updates := wallets_updates st'\<rparr>"
  by (auto simp: enqueue_def split: option.splits)

lemma deliver_untouched:
  "m \<notin> events_of st k \<Longrightarrow>
   map_of (wallets_updates (snd (deliver m origin data keys st))) k = map_of (wallets_updates st) k"
proof (induction keys arbitrary: st)
  case Nil
  then show ?case by simp
next
  case (Cons i rest)
  show ?case
  proof (cases "event_for_session m origin st i")
    case (Inl e)
    then show ?thesis by simp
  next
    case (Inr wanted)
    show ?thesis
    proof (cases wanted)
      case False
      with Inr Cons show ?thesis by simp
    next
      case True
      with Inr have "m \<in> events_of st i" by (simp add: event_for_session_wanted)
      with Cons.prems have neq: "k \<noteq> i" by auto
      show ?thesis
      proof (cases "enqueue i data st")
        case (Inl e)
        with Inr True show ?thesis by simp
      next
        case (Inr st')
        from Inr have fr: "st' = st\<lparr>wallets_updates := wallets_updates st'\<rparr>"
          by (rule enqueue_frame)
        have "events_of st' k = events_of st k"
          by (subst fr) (simp add: events_of_frame)
        with Cons.prems have "m \<notin> events_of st' k" by simp
        then have "map_of (wallets_updates (snd (deliver m origin data rest st'))) k
                     = map_of (wallets_updates st') k"
          by (rule Cons.IH)
        also have "\<dots> = map_of (wallets_updates st) k"
          using Inr neq by (rule enqueue_other)
        finally show ?thesis
          using \<open>event_for_session m origin st i = Inr wanted\<close> True Inr by simp
      qed
    qed
  qed
qed


lemma enqueue_same:
  "enqueue i data st = Inr st' \<Longrightarrow>
   map_of (wallets_updates st') i = map_option (\<lambda>q. q @ [data]) (map_of (wallets_updates st) i)"
  by (auto simp: enqueue_def update_conv' split: option.splits)

lemma enqueue_keys:
  assumes "enqueue i data st = Inr st'"
  shows "map fst (wallets_updates st') = map fst (wallets_updates st)"
proof -
  from assms obtain q where q: "map_of (wallets_updates st) i = Some q"
    and st': "st' = st\<lparr>wallets_updates := AList.update i (q @ [data]) (wallets_updates st)\<rparr>"
    by (auto simp: enqueue_def split: option.splits)
  from q have "i \<in> fst ` set (wallets_updates st)"
    by (metis domI dom_map_of_conv_image_fst)
  then show ?thesis
    by (simp add: st' update_keys)
qed

lemma deliver_frame:
  "wallets (snd (deliver m origin data keys st)) = wallets st \<and>
   wallets_config (snd (deliver m origin data keys st)) = wallets_config st \<and>
   daemon_wallets (snd (deliver m origin data keys st)) = daemon_wallets st \<and>
   next_ref (snd (deliver m origin data keys st)) = next_ref st \<and>
   map fst (wallets_updates (snd (deliver m origin data keys st))) = map fst (wallets_updates st)"
proof (induction keys arbitrary: st)
  case Nil
  then show ?case by simp
next
  case (Cons i rest)
  show ?case
  proof (cases "event_for_session m origin st i")
    case (Inl e)
    then show ?thesis by simp
  next
    case (Inr wanted)
    note w = this
    show ?thesis
    proof (cases "wanted \<and> \<not> isl (enqueue i data st)")
      case False
      with w Cons.IH [of st] show ?thesis
        by (cases "enqueue i data st") auto
    next
      case True
      then obtain st' where e: "enqueue i data st = Inr st'"
        by (cases "enqueue i data st") auto
      from e have fr: "st' = st\<lparr>wallets_updates := wallets_updates st'\<rparr>"
        by (rule enqueue_frame)
      have same: "wallets st' = wallets st" "wallets_config st' = wallets_config st"
        "daemon_wallets st' = daemon_wallets st" "next_ref st' = next_ref st"
        by (subst fr, simp)+
      from True w e Cons.IH [of st'] same enqueue_keys [OF e] show ?thesis by simp
    qed
  qed
qed






lemma subscribed_sessions_eq:
  "subscribed_sessions =
     \<lparr>wallets = [(''xpubA'', \<lparr>wallet = WalletObj 2 ''wallets/xpubA'', cmd = 1, config = 0\<rparr>),
                 (''xpubB'', \<lparr>wallet = WalletObj 5 ''wallets/xpubB'', cmd = 4, config = 3\<rparr>)],
      wallets_config = [(''xpubA'', {TStr ''new_transaction'', TStr ''new_payment''}),
                        (''xpubB'', {TStr ''new_payment''})],
      wallets_updates = [(''xpubA'', []), (''xpubB'', [])],
      daemon_wallets = [(''wallets/xpubA'', WalletObj 2 ''wallets/xpubA''),
                        (''wallets/xpubB'', WalletObj 5 ''wallets/xpubB'')],
      next_ref = 6\<rparr>"
  by (simp add: subscribed_sessions_def two_sessions_eq subscribe_def)

lemma null_subscriber_eq:
  "null_subscriber =
     \<lparr>wallets = [(''xpubA'', \<lparr>wallet = WalletObj 2 ''wallets/xpubA'', cmd = 1, config = 0\<rparr>),
                 (''xpubB'', \<lparr>wallet = WalletObj 5 ''wallets/xpubB'', cmd = 4, config = 3\<rparr>)],
      wallets_config = [(''xpubA'', {TNone}), (''xpubB'', {})],
      wallets_updates = [(''xpubA'', []), (''xpubB'', [])],
      daemon_wallets = [(''wallets/xpubA'', WalletObj 2 ''wallets/xpubA''),
                        (''wallets/xpubB'', WalletObj 5 ''wallets/xpubB'')],
      next_ref = 6\<rparr>"
  by (simp add: null_subscriber_def two_sessions_eq subscribe_def)




lemma deliver_untouched_queue:
  "m \<notin> events_of st k \<Longrightarrow> queue_of (snd (deliver m origin data keys st)) k = queue_of st k"
  by (simp add: queue_of_def deliver_untouched)

text \<open>
  Claim C5, as amended. For a raw event whose kind has no entry in the event mapping, the
  mapped tag is \<^verbatim>\<open>None\<close> and the hook is still called: the queue of every session whose
  subscription set does not hold \<^verbatim>\<open>None\<close> is unchanged, and nothing at all changes when
  the hook raises or yields no payload. The callback itself drops nothing: with a hook
  that has a payload for the unmapped event, a session subscribed to \<^verbatim>\<open>null\<close> receives
  the record (the counterexample below).
\<close>

theorem unmapped_event_needs_null_subscription:
  assumes "map_of (EVENT_MAPPING env) event = None"
  shows "(TNone \<notin> events_of st w \<longrightarrow>
            queue_of (snd (private_process_events env event event_args st)) w = queue_of st w) \<and>
         ((\<exists>e. process_events env None event_args = Inl e) \<or>
          (\<exists>origin. process_events env None event_args = Inr (None, origin)) \<longrightarrow>
            private_process_events env event event_args st = (Returns (), st))"
proof (intro conjI impI)
  assume "TNone \<notin> events_of st w"
  then show "queue_of (snd (private_process_events env event event_args st)) w = queue_of st w"
    using assms
    by (auto simp: private_process_events_def Let_def deliver_untouched_queue
        split: sum.splits option.splits)
next
  assume "(\<exists>e. process_events env None event_args = Inl e) \<or>
          (\<exists>origin. process_events env None event_args = Inr (None, origin))"
  then show "private_process_events env event event_args st = (Returns (), st)"
    using assms by (auto simp: private_process_events_def Let_def)
qed

theorem unmapped_event_needs_null_subscription_witness:
  "queue_of (snd (private_process_events eager_env ''fee'' [] null_subscriber)) ''xpubB''
     = queue_of null_subscriber ''xpubB'' \<and>
   private_process_events (example_env None) ''fee'' [] null_subscriber
     = (Returns (), null_subscriber)"
proof -
  have m: "map_of (EVENT_MAPPING eager_env) ''fee'' = None"
    "map_of (EVENT_MAPPING (example_env None)) ''fee'' = None"
    by (simp_all add: eager_env_def example_env_def)
  have n: "TNone \<notin> events_of null_subscriber ''xpubB''"
    by (simp add: null_subscriber_eq events_of_def)
  have h: "process_events (example_env None) None [] = Inr (None, None)"
    by (simp add: example_env_def example_hook_def)
  from unmapped_event_needs_null_subscription
         [OF m(1), where st = null_subscriber and w = "''xpubB''" and event_args = "[]"] n
    unmapped_event_needs_null_subscription
         [OF m(2), where st = null_subscriber and w = "''xpubB''" and event_args = "[]"] h
  show ?thesis by blast
qed

theorem unmapped_event_counterexample:
  "map_of (EVENT_MAPPING eager_env) ''fee'' = None \<and>
   queue_of null_subscriber ''xpubA'' = [] \<and>
   queue_of (snd (private_process_events eager_env ''fee'' [] null_subscriber)) ''xpubA''
     = [JObj [(''event'', JNull), (''height'', JNum 7)]]"
  by (simp add: eager_env_def example_env_def eager_hook_def null_subscriber_eq
      private_process_events_def event_for_session_def enqueue_def event_record_def
      dict_update_def queue_of_def)

lemma unsubscribe_all_removes_raw_kinds:
  assumes "map_of (wallets_config st) w = Some S"
  shows "fst (unsubscribe event_mapping JNull (JStr w) st) = Returns JNull \<and>
         events_of (snd (unsubscribe event_mapping JNull (JStr w) st)) w
           = S - TStr ` set (map fst event_mapping)"
  using assms
  by (auto simp: unsubscribe_def unsubscribe_member_def events_of_def update_conv')

text \<open>
  Claim C1. \<^verbatim>\<open>unsubscribe\<close> with no events removes the keys of the event mapping, the raw
  event kinds (the lemma above), and not its values, the public tags that sessions
  subscribe to and that \<^verbatim>\<open>_process_events\<close> delivers. In the concrete daemon the public
  tag \<^verbatim>\<open>new_payment\<close> of the raw kind \<^verbatim>\<open>payment_received\<close> stays in the subscription set
  of \<open>xpubA\<close> after \<^verbatim>\<open>unsubscribe\<close> with no events has returned.
\<close>

theorem unsubscribe_all_keeps_public_tag:
  "TStr ''new_payment'' \<in> known_tags (example_env None) \<and>
   events_of subscribed_sessions ''xpubA'' = {TStr ''new_transaction'', TStr ''new_payment''} \<and>
   fst (unsubscribe (EVENT_MAPPING (example_env None)) JNull (JStr ''xpubA'') subscribed_sessions)
     = Returns JNull \<and>
   events_of (snd (unsubscribe (EVENT_MAPPING (example_env None)) JNull (JStr ''xpubA'')
                 subscribed_sessions)) ''xpubA''
     = {TStr ''new_payment''}"
proof -
  have c: "map_of (wallets_config subscribed_sessions) ''xpubA''
             = Some {TStr ''new_transaction'', TStr ''new_payment''}"
    by (simp add: subscribed_sessions_eq)
  from unsubscribe_all_removes_raw_kinds [OF c, of "EVENT_MAPPING (example_env None)"] c
  show ?thesis
    by (auto simp: known_tags_def example_env_def events_of_def)
qed


section \<open>Resolving wallet sessions\<close>

lemma update_fresh_key: "k \<notin> fst ` set al \<Longrightarrow> AList.update k v al = al @ [(k, v)]"
  by (induction al) auto

lemma load_wallet_registered:
  "registered st xpub = Inr (Some wd) \<Longrightarrow>
   load_wallet env ext xpub st = (Returns (Some (wallet wd), cmd wd, config wd), st)"
  by (simp add: load_wallet_def load_wallet_begin_def)

text \<open>
  What a resolution that runs alone does to the state: nothing but constructing objects,
  or the registration of an identifier that was not registered, with a new wallet.
\<close>

lemma load_wallet_state:
  "snd (load_wallet env ext xpub st) = st \<or>
   (\<exists>n. snd (load_wallet env ext xpub st) = st\<lparr>next_ref := n\<rparr> \<and> next_ref st \<le> n) \<or>
   (\<exists>x wd n. xpub = JStr x \<and> x \<noteq> [] \<and> map_of (wallets st) x = None \<and>
      next_ref st \<le> ident (wallet wd) \<and> ident (wallet wd) < n \<and>
      snd (load_wallet env ext xpub st) = load_wallet_register env x wd (st\<lparr>next_ref := n\<rparr>))"
proof -
  let ?bump = "\<exists>n. snd (load_wallet env ext xpub st) = st\<lparr>next_ref := n\<rparr> \<and> next_ref st \<le> n"
  consider (raised) e where "registered st xpub = Inl e"
    | (found) wd where "registered st xpub = Inr (Some wd)"
    | (unprepared) e where "registered st xpub = Inr None" "prepare ext = Some e"
    | (empty) "registered st xpub = Inr None" "prepare ext = None" "\<not> truthy xpub"
    | (other) "registered st xpub = Inr None" "prepare ext = None" "truthy xpub"
        "\<forall>x. xpub \<noteq> JStr x"
    | (named) x where "registered st xpub = Inr None" "prepare ext = None" "xpub = JStr x"
        "x \<noteq> []"
    by (cases "registered st xpub"; cases "prepare ext"; cases xpub) auto
  then show ?thesis
  proof cases
    case raised
    then show ?thesis by (simp add: load_wallet_def load_wallet_begin_def)
  next
    case found
    then show ?thesis by (simp add: load_wallet_registered)
  next
    case unprepared
    then show ?thesis by (simp add: load_wallet_def load_wallet_begin_def)
  next
    case empty
    then have "snd (load_wallet env ext xpub st) = st\<lparr>next_ref := next_ref st + 2\<rparr>"
      by (simp add: load_wallet_def load_wallet_begin_def Let_def)
    then have ?bump by (intro exI [of _ "next_ref st + 2"]) simp
    then show ?thesis by blast
  next
    case other
    then have "snd (load_wallet env ext xpub st) = st\<lparr>next_ref := next_ref st + 2\<rparr>"
      by (cases xpub) (simp_all add: load_wallet_def load_wallet_begin_def Let_def)
    then have ?bump by (intro exI [of _ "next_ref st + 2"]) simp
    then show ?thesis by blast
  next
    case named
    from named(1,3) have unreg: "map_of (wallets st) x = None" by simp
    let ?wd = "\<lparr>wallet = WalletObj (next_ref st + 2) (wallet_path_of env x),
                cmd = next_ref st + 1, config = next_ref st\<rparr>"
    let ?st1 = "st\<lparr>next_ref := next_ref st + 2\<rparr>"
    let ?st2 = "st\<lparr>next_ref := next_ref st + 2 + 1\<rparr>"
    have first_part: "load_wallet_begin env ext xpub st =
        (case (if path_exists ext then None else restore ext) of
           Some e \<Rightarrow> (Finished (Raises e), ?st1)
         | None \<Rightarrow>
             (case open_wallet ext of
                Some e \<Rightarrow> (Finished (Raises e), ?st1)
              | None \<Rightarrow>
                  if sync_polls ext = Some 0
                  then (Finished (Returns (Some (wallet ?wd), cmd ?wd, config ?wd)),
                        load_wallet_register env x ?wd ?st2)
                  else (Polling x ?wd, ?st2)))"
      using named by (auto simp: load_wallet_begin_def Let_def split: option.splits)
    have "snd (load_wallet env ext xpub st) = ?st1 \<or>
          snd (load_wallet env ext xpub st) = ?st2 \<or>
          snd (load_wallet env ext xpub st) = load_wallet_register env x ?wd ?st2"
      by (simp add: load_wallet_def first_part load_wallet_resume_def split: option.splits)
    then consider "snd (load_wallet env ext xpub st) = ?st1"
      | "snd (load_wallet env ext xpub st) = ?st2"
      | "snd (load_wallet env ext xpub st) = load_wallet_register env x ?wd ?st2"
      by blast
    then show ?thesis
    proof cases
      case 1
      then have ?bump by (intro exI [of _ "next_ref st + 2"]) simp
      then show ?thesis by blast
    next
      case 2
      then have ?bump by (intro exI [of _ "next_ref st + 2 + 1"]) simp
      then show ?thesis by blast
    next
      case 3
      with named(3,4) unreg have "xpub = JStr x \<and> x \<noteq> [] \<and> map_of (wallets st) x = None \<and>
          next_ref st \<le> ident (wallet ?wd) \<and> ident (wallet ?wd) < next_ref st + 2 + 1 \<and>
          snd (load_wallet env ext xpub st) = load_wallet_register env x ?wd ?st2"
        by simp
      then show ?thesis by blast
    qed
  qed
qed

lemma register_keeps_entries:
  assumes "x \<noteq> y"
  shows "map_of (wallets (load_wallet_register env y wd st)) x = map_of (wallets st) x"
    and "map_of (wallets_config (load_wallet_register env y wd st)) x = map_of (wallets_config st) x"
    and "map_of (wallets_updates (load_wallet_register env y wd st)) x = map_of (wallets_updates st) x"
  using assms by (simp_all add: load_wallet_register_def update_conv')

lemma load_wallet_keeps_entries:
  assumes "map_of (wallets st) x = Some d"
  shows "map_of (wallets (snd (load_wallet env ext xpub st))) x = Some d \<and>
         map_of (wallets_config (snd (load_wallet env ext xpub st))) x = map_of (wallets_config st) x \<and>
         map_of (wallets_updates (snd (load_wallet env ext xpub st))) x = map_of (wallets_updates st) x"
proof -
  have neq: "x \<noteq> y" if "map_of (wallets st) y = None" for y
    using that assms by auto
  from load_wallet_state [of env ext xpub st] show ?thesis
    using assms by (elim disjE exE conjE) (simp_all add: register_keeps_entries neq)
qed

lemma register_ok:
  assumes ok: "registry_ok st" and x: "x \<noteq> []" and unreg: "map_of (wallets st) x = None"
    and lo: "next_ref st \<le> ident (wallet wd)" and hi: "ident (wallet wd) < n"
  shows "registry_ok (load_wallet_register env x wd (st\<lparr>next_ref := n\<rparr>))"
proof -
  from unreg have k: "x \<notin> fst ` set (wallets st)"
    by (simp add: map_of_eq_None_iff)
  with ok have kc: "x \<notin> fst ` set (wallets_config st)" and ku: "x \<notin> fst ` set (wallets_updates st)"
    by (auto simp: registry_ok_def)
  have w: "wallets (load_wallet_register env x wd (st\<lparr>next_ref := n\<rparr>)) = wallets st @ [(x, wd)]"
    and c: "wallets_config (load_wallet_register env x wd (st\<lparr>next_ref := n\<rparr>))
              = wallets_config st @ [(x, {})]"
    and u: "wallets_updates (load_wallet_register env x wd (st\<lparr>next_ref := n\<rparr>))
              = wallets_updates st @ [(x, [])]"
    and r: "next_ref (load_wallet_register env x wd (st\<lparr>next_ref := n\<rparr>)) = n"
    using k kc ku by (simp_all add: load_wallet_register_def update_fresh_key)
  from ok lo have fresh: "ident (wallet wd) \<notin> (\<lambda>kv. ident (wallet (snd kv))) ` set (wallets st)"
    by (fastforce simp: registry_ok_def)
  from ok lo hi have bound: "\<forall>kv\<in>set (wallets st). ident (wallet (snd kv)) < n"
    by (fastforce simp: registry_ok_def)
  show ?thesis
    unfolding registry_ok_def w c u r
    using ok k kc ku x fresh bound hi by (auto simp: registry_ok_def)
qed

lemma next_ref_ok: "registry_ok st \<Longrightarrow> next_ref st \<le> n \<Longrightarrow> registry_ok (st\<lparr>next_ref := n\<rparr>)"
  by (fastforce simp: registry_ok_def)

lemma load_wallet_ok: "registry_ok st \<Longrightarrow> registry_ok (snd (load_wallet env ext xpub st))"
  using load_wallet_state [of env ext xpub st]
  by (elim disjE exE conjE) (auto simp: register_ok next_ref_ok)

lemma init_daemon_ok: "registry_ok init_daemon"
  by (simp add: registry_ok_def init_daemon_def)

lemma load_all_step:
  "load_all env (c # cs) st =
     (if fst (load_wallet env (fst c) (snd c) st) = Hangs
      then snd (load_wallet env (fst c) (snd c) st)
      else load_all env cs (snd (load_wallet env (fst c) (snd c) st)))"
  by (cases "load_wallet env (fst c) (snd c) st"; cases "fst (load_wallet env (fst c) (snd c) st)")
     auto

lemma load_all_ok: "registry_ok st \<Longrightarrow> registry_ok (load_all env calls st)"
proof (induction calls arbitrary: st)
  case Nil
  then show ?case by simp
next
  case (Cons c cs)
  from Cons.prems have "registry_ok (snd (load_wallet env (fst c) (snd c) st))"
    by (rule load_wallet_ok)
  with Cons.IH show ?case
    by (simp only: load_all_step split: if_splits) simp
qed

lemma load_all_keeps_entries:
  "map_of (wallets st) x = Some d \<Longrightarrow>
   map_of (wallets (load_all env calls st)) x = Some d \<and>
   map_of (wallets_config (load_all env calls st)) x = map_of (wallets_config st) x \<and>
   map_of (wallets_updates (load_all env calls st)) x = map_of (wallets_updates st) x"
proof (induction calls arbitrary: st)
  case Nil
  then show ?case by simp
next
  case (Cons c cs)
  let ?st1 = "snd (load_wallet env (fst c) (snd c) st)"
  from Cons.prems have k: "map_of (wallets ?st1) x = Some d \<and>
         map_of (wallets_config ?st1) x = map_of (wallets_config st) x \<and>
         map_of (wallets_updates ?st1) x = map_of (wallets_updates st) x"
    by (rule load_wallet_keeps_entries)
  then have "map_of (wallets (load_all env cs ?st1)) x = Some d \<and>
   map_of (wallets_config (load_all env cs ?st1)) x = map_of (wallets_config ?st1) x \<and>
   map_of (wallets_updates (load_all env cs ?st1)) x = map_of (wallets_updates ?st1) x"
    by (intro Cons.IH) simp
  with k show ?case
    by (simp only: load_all_step split: if_splits) simp
qed

text \<open>
  A resolution that runs alone is its start followed at once by its resumption.
\<close>

lemma load_wallet_as_steps:
  assumes "sync_polls ext \<noteq> None"
  shows "snd (load_wallet env ext xpub st)
           = fst (event_loop env [Start ext xpub, Resume 0] st)"
  using assms
  by (cases "load_wallet_begin env ext xpub st"; cases "fst (load_wallet_begin env ext xpub st)")
     (auto simp: load_wallet_def event_loop_def load_wallet_resume_def)

lemma two_sessions_ok: "registry_ok two_sessions"
  by (simp add: two_sessions_eq registry_ok_def)

text \<open>
  Resolutions that run one after the other. In a well-formed registry, resolving a
  registered identifier returns the stored session and leaves the whole state unchanged;
  and after any sequence of resolutions each of which finishes before the next one starts,
  the registry is well formed (each identifier is a key once) and the session, the
  subscription set and the queue of an identifier registered before are the ones it had.
\<close>

lemma resolution_is_idempotent_when_sequential:
  assumes "registry_ok st" and "map_of (wallets st) x = Some wd"
  shows "load_wallet env ext (JStr x) st = (Returns (Some (wallet wd), cmd wd, config wd), st) \<and>
         registry_ok (load_all env calls st) \<and>
         distinct (map fst (wallets (load_all env calls st))) \<and>
         map_of (wallets (load_all env calls st)) x = Some wd \<and>
         map_of (wallets_config (load_all env calls st)) x = map_of (wallets_config st) x \<and>
         map_of (wallets_updates (load_all env calls st)) x = map_of (wallets_updates st) x"
proof -
  have "registered st (JStr x) = Inr (Some wd)"
    using assms(2) by simp
  then have "load_wallet env ext (JStr x) st = (Returns (Some (wallet wd), cmd wd, config wd), st)"
    by (rule load_wallet_registered)
  moreover have ok: "registry_ok (load_all env calls st)"
    using assms(1) by (rule load_all_ok)
  moreover from ok have "distinct (map fst (wallets (load_all env calls st)))"
    by (simp add: registry_ok_def)
  ultimately show ?thesis
    using load_all_keeps_entries [OF assms(2), of env calls] by simp
qed

lemma resolution_is_idempotent_when_sequential_witness:
  "load_wallet (example_env None) ext_failing (JStr ''xpubA'') two_sessions
     = (Returns (Some (WalletObj 2 ''wallets/xpubA''), 1, 0), two_sessions) \<and>
   map_of (wallets (load_all (example_env None)
                      [(ext_ready, JStr ''xpubA''), (ext_syncing, JStr ''xpubC''), (ext_ready, JStr ''xpubA'')]
                      two_sessions)) ''xpubA''
     = Some \<lparr>wallet = WalletObj 2 ''wallets/xpubA'', cmd = 1, config = 0\<rparr>"
proof -
  have "map_of (wallets two_sessions) ''xpubA''
          = Some \<lparr>wallet = WalletObj 2 ''wallets/xpubA'', cmd = 1, config = 0\<rparr>"
    by (simp add: two_sessions_eq)
  from resolution_is_idempotent_when_sequential
         [OF two_sessions_ok this, where env = "example_env None" and ext = ext_failing
          and calls = "[(ext_ready, JStr ''xpubA''), (ext_syncing, JStr ''xpubC''),
                        (ext_ready, JStr ''xpubA'')]"]
  show ?thesis by (simp del: load_all.simps)
qed

lemma begin_keeps_session:
  assumes "map_of (wallets st) x = Some wd"
  shows "(case load_wallet_begin env ext xpub st of
            (Finished r, st1) \<Rightarrow>
              map_of (wallets st1) x = Some wd \<and>
              map_of (wallets_config st1) x = map_of (wallets_config st) x \<and>
              map_of (wallets_updates st1) x = map_of (wallets_updates st) x
          | (Polling y wd', st1) \<Rightarrow>
              y \<noteq> x \<and>
              map_of (wallets st1) x = Some wd \<and>
              map_of (wallets_config st1) x = map_of (wallets_config st) x \<and>
              map_of (wallets_updates st1) x = map_of (wallets_updates st) x)"
  using assms
  by (auto simp: load_wallet_begin_def Let_def load_wallet_register_def update_conv'
      split: sum.splits option.splits json.splits)

lemma resume_keeps_session:
  assumes "map_of (wallets st) x = Some wd" and "y \<noteq> x"
  shows "map_of (wallets (snd (load_wallet_resume env y wd' st))) x = Some wd \<and>
         map_of (wallets_config (snd (load_wallet_resume env y wd' st))) x
           = map_of (wallets_config st) x \<and>
         map_of (wallets_updates (snd (load_wallet_resume env y wd' st))) x
           = map_of (wallets_updates st) x"
  using assms by (simp add: load_wallet_resume_def load_wallet_register_def update_conv')

lemma step_keeps_session:
  assumes "map_of (wallets (fst s)) x = Some wd" and "x \<notin> fst ` set (snd s)"
  shows "map_of (wallets (fst (event_loop_step env step s))) x = Some wd \<and>
         map_of (wallets_config (fst (event_loop_step env step s))) x
           = map_of (wallets_config (fst s)) x \<and>
         map_of (wallets_updates (fst (event_loop_step env step s))) x
           = map_of (wallets_updates (fst s)) x \<and>
         x \<notin> fst ` set (snd (event_loop_step env step s))"
proof (cases s)
  case (Pair st suspended)
  show ?thesis
  proof (cases step)
    case (Start ext xpub)
    from begin_keeps_session [of st x wd env ext xpub] assms Pair Start show ?thesis
      by (auto split: prod.splits load_progress.splits)
  next
    case (Resume n)
    show ?thesis
    proof (cases "n < length suspended")
      case True
      then have "suspended ! n \<in> set suspended" by simp
      with assms(2) Pair have ne: "fst (suspended ! n) \<noteq> x" by auto
      have "x \<notin> fst ` set (take n suspended @ drop (Suc n) suspended)"
        using assms(2) Pair by (auto dest: in_set_takeD in_set_dropD)
      with resume_keeps_session [OF _ ne, of st wd env "snd (suspended ! n)"] assms(1) Pair Resume True
      show ?thesis by simp
    next
      case False
      with assms Pair Resume show ?thesis by simp
    qed
  qed
qed

lemma steps_keep_session:
  assumes "map_of (wallets (fst s)) x = Some wd" and "x \<notin> fst ` set (snd s)"
  shows "map_of (wallets (fst (foldl (\<lambda>s step. event_loop_step env step s) s steps))) x = Some wd \<and>
         map_of (wallets_config (fst (foldl (\<lambda>s step. event_loop_step env step s) s steps))) x
           = map_of (wallets_config (fst s)) x \<and>
         map_of (wallets_updates (fst (foldl (\<lambda>s step. event_loop_step env step s) s steps))) x
           = map_of (wallets_updates (fst s)) x \<and>
         x \<notin> fst ` set (snd (foldl (\<lambda>s step. event_loop_step env step s) s steps))"
  using assms
proof (induction steps arbitrary: s)
  case Nil
  then show ?case by simp
next
  case (Cons step steps)
  from step_keeps_session [OF Cons.prems, of env step]
  have a: "map_of (wallets (fst (event_loop_step env step s))) x = Some wd"
    and b: "map_of (wallets_config (fst (event_loop_step env step s))) x
              = map_of (wallets_config (fst s)) x"
    and c: "map_of (wallets_updates (fst (event_loop_step env step s))) x
              = map_of (wallets_updates (fst s)) x"
    and d: "x \<notin> fst ` set (snd (event_loop_step env step s))"
    by blast+
  from Cons.IH [OF a d] b c show ?case by simp
qed

lemma event_loop_append:
  "event_loop env (before @ after) st
     = foldl (\<lambda>s step. event_loop_step env step s) (event_loop env before st) after"
  by (simp add: event_loop_def)

lemma begin_keeps_distinct:
  assumes "distinct (map fst (wallets st))"
  shows "distinct (map fst (wallets (snd (load_wallet_begin env ext xpub st))))"
  using assms
  by (auto simp: load_wallet_begin_def Let_def load_wallet_register_def distinct_update
      split: sum.splits option.splits json.splits)

lemma step_keeps_distinct:
  assumes "distinct (map fst (wallets (fst s)))"
  shows "distinct (map fst (wallets (fst (event_loop_step env step s))))"
proof (cases s)
  case (Pair st suspended)
  show ?thesis
  proof (cases step)
    case (Start ext xpub)
    from begin_keeps_distinct [of st env ext xpub] assms Pair Start show ?thesis
      by (auto split: prod.splits load_progress.splits)
  next
    case (Resume n)
    with assms Pair show ?thesis
      by (simp add: load_wallet_resume_def load_wallet_register_def distinct_update)
  qed
qed

lemma steps_keep_distinct:
  assumes "distinct (map fst (wallets (fst s)))"
  shows "distinct (map fst (wallets (fst (foldl (\<lambda>s step. event_loop_step env step s) s steps))))"
  using assms
proof (induction steps arbitrary: s)
  case Nil
  then show ?case by simp
next
  case (Cons step steps)
  from Cons.IH [OF step_keeps_distinct [OF Cons.prems, of env step]] show ?case by simp
qed

text \<open>
  Claim C9, as amended. Resolutions that overlap in any way: the event loop has run the
  steps \<open>before\<close>, after which the identifier \<open>x\<close> is registered with the session \<open>wd\<close> and no
  call resolving \<open>x\<close> is suspended in the sleep of line 121. Then whatever steps \<open>after\<close> the loop
  runs next (new resolutions of \<open>x\<close> or of other identifiers, started, suspended and resumed
  in any order, also several at a time for one identifier other than \<open>x\<close>), \<open>x\<close> keeps that
  session, its subscription set and its queue, no call resolving \<open>x\<close> becomes suspended, and
  resolving \<open>x\<close> again returns the stored session and changes nothing. Each identifier is a
  key of the registry once. With \<open>before\<close> empty this covers every session registered while
  no resolution is in flight. The excluded case is a session of \<open>x\<close> registered while another
  first resolution of \<open>x\<close> is still suspended: that one stores its own wallet when it resumes
  and replaces the session (the counterexample below).
\<close>

theorem registered_session_survives_every_schedule:
  assumes "map_of (wallets (fst (event_loop env before st))) x = Some wd"
    and "x \<notin> fst ` set (snd (event_loop env before st))"
  shows "map_of (wallets (fst (event_loop env (before @ after) st))) x = Some wd \<and>
         map_of (wallets_config (fst (event_loop env (before @ after) st))) x
           = map_of (wallets_config (fst (event_loop env before st))) x \<and>
         map_of (wallets_updates (fst (event_loop env (before @ after) st))) x
           = map_of (wallets_updates (fst (event_loop env before st))) x \<and>
         x \<notin> fst ` set (snd (event_loop env (before @ after) st)) \<and>
         load_wallet env ext (JStr x) (fst (event_loop env (before @ after) st))
           = (Returns (Some (wallet wd), cmd wd, config wd),
              fst (event_loop env (before @ after) st)) \<and>
         (distinct (map fst (wallets st)) \<longrightarrow>
            distinct (map fst (wallets (fst (event_loop env (before @ after) st)))))"
proof -
  let ?final = "event_loop env (before @ after) st"
  from steps_keep_session [OF assms, of env after]
  have kept: "map_of (wallets (fst ?final)) x = Some wd"
    and rest: "map_of (wallets_config (fst ?final)) x
                 = map_of (wallets_config (fst (event_loop env before st))) x"
      "map_of (wallets_updates (fst ?final)) x
                 = map_of (wallets_updates (fst (event_loop env before st))) x"
      "x \<notin> fst ` set (snd ?final)"
    unfolding event_loop_append by blast+
  from kept have "registered (fst ?final) (JStr x) = Inr (Some wd)" by simp
  then have again: "load_wallet env ext (JStr x) (fst ?final)
      = (Returns (Some (wallet wd), cmd wd, config wd), fst ?final)"
    by (rule load_wallet_registered)
  have "distinct (map fst (wallets st)) \<longrightarrow> distinct (map fst (wallets (fst ?final)))"
    using steps_keep_distinct [of "(st, [])" env "before @ after"]
    by (simp add: event_loop_def)
  with kept rest again show ?thesis by blast
qed


theorem registered_session_survives_every_schedule_witness:
  "map_of (wallets (fst (event_loop (example_env None)
      [Start ext_syncing (JStr ''xpubC''), Start ext_syncing (JStr ''xpubC''),
       Start ext_syncing (JStr ''xpubA''), Resume 0, Resume 0]
      two_sessions))) ''xpubA''
     = Some \<lparr>wallet = WalletObj 2 ''wallets/xpubA'', cmd = 1, config = 0\<rparr> \<and>
   distinct (map fst (wallets (fst (event_loop (example_env None)
      [Start ext_syncing (JStr ''xpubC''), Start ext_syncing (JStr ''xpubC''),
       Start ext_syncing (JStr ''xpubA''), Resume 0, Resume 0]
      two_sessions)))) \<and>
   map_of (wallets (fst (event_loop (example_env None)
      [Start ext_syncing (JStr ''xpubA''), Start ext_syncing (JStr ''xpubB''), Resume 0,
       Resume 0, Start ext_syncing (JStr ''xpubA'')]
      init_daemon))) ''xpubA''
     = Some \<lparr>wallet = WalletObj 2 ''wallets/xpubA'', cmd = 1, config = 0\<rparr> \<and>
   map_of (wallets (fst (event_loop (example_env None)
      [Start ext_syncing (JStr ''xpubA''), Start ext_syncing (JStr ''xpubB''), Resume 0,
       Resume 0, Start ext_syncing (JStr ''xpubA'')]
      init_daemon))) ''xpubB''
     = Some \<lparr>wallet = WalletObj 5 ''wallets/xpubB'', cmd = 4, config = 3\<rparr>"
proof -
  let ?env = "example_env None"
  let ?wd = "\<lparr>wallet = WalletObj 2 ''wallets/xpubA'', cmd = 1, config = 0\<rparr>"
  let ?overlap = "[Start ext_syncing (JStr ''xpubA''), Start ext_syncing (JStr ''xpubB''), Resume 0]"
  have distinct_keys: "distinct (map fst (wallets two_sessions))"
    by (simp add: two_sessions_eq)
  have quiet: "map_of (wallets (fst (event_loop ?env [] two_sessions))) ''xpubA'' = Some ?wd"
    "''xpubA'' \<notin> fst ` set (snd (event_loop ?env [] two_sessions))"
    by (simp_all add: event_loop_def two_sessions_eq)
  have mid: "map_of (wallets (fst (event_loop ?env ?overlap init_daemon))) ''xpubA'' = Some ?wd"
    "''xpubA'' \<notin> fst ` set (snd (event_loop ?env ?overlap init_daemon))"
    by (simp_all add: event_loop_def load_wallet_begin_def load_wallet_resume_def
        load_wallet_register_def example_env_def ext_syncing_def init_daemon_def)
  have b: "map_of (wallets (fst (event_loop ?env
      [Start ext_syncing (JStr ''xpubA''), Start ext_syncing (JStr ''xpubB''), Resume 0,
       Resume 0, Start ext_syncing (JStr ''xpubA'')]
      init_daemon))) ''xpubB''
     = Some \<lparr>wallet = WalletObj 5 ''wallets/xpubB'', cmd = 4, config = 3\<rparr>"
    by (simp add: event_loop_def load_wallet_begin_def load_wallet_resume_def
        load_wallet_register_def example_env_def ext_syncing_def init_daemon_def)
  from registered_session_survives_every_schedule [OF quiet, where ext = ext_ready and after =
      "[Start ext_syncing (JStr ''xpubC''), Start ext_syncing (JStr ''xpubC''),
        Start ext_syncing (JStr ''xpubA''), Resume 0, Resume 0]"]
  have 1: "map_of (wallets (fst (event_loop ?env
      [Start ext_syncing (JStr ''xpubC''), Start ext_syncing (JStr ''xpubC''),
       Start ext_syncing (JStr ''xpubA''), Resume 0, Resume 0]
      two_sessions))) ''xpubA'' = Some ?wd \<and>
    distinct (map fst (wallets (fst (event_loop ?env
      [Start ext_syncing (JStr ''xpubC''), Start ext_syncing (JStr ''xpubC''),
       Start ext_syncing (JStr ''xpubA''), Resume 0, Resume 0]
      two_sessions))))"
    using distinct_keys by simp
  from registered_session_survives_every_schedule [OF mid, where ext = ext_ready and after =
      "[Resume 0, Start ext_syncing (JStr ''xpubA'')]"]
  have 2: "map_of (wallets (fst (event_loop ?env
      [Start ext_syncing (JStr ''xpubA''), Start ext_syncing (JStr ''xpubB''), Resume 0,
       Resume 0, Start ext_syncing (JStr ''xpubA'')]
      init_daemon))) ''xpubA'' = Some ?wd"
    by simp
  from 1 2 b show ?thesis by blast
qed

theorem concurrent_resolution_counterexample:
  "fst (event_loop_step (example_env None) (Start ext_syncing (JStr ''xpubA'')) (init_daemon, []))
     = init_daemon\<lparr>next_ref := 3\<rparr> \<and>
   map_of (wallets (fst (event_loop (example_env None)
      [Start ext_syncing (JStr ''xpubA''), Start ext_syncing (JStr ''xpubA''), Resume 0]
      init_daemon))) ''xpubA''
     = Some \<lparr>wallet = WalletObj 2 ''wallets/xpubA'', cmd = 1, config = 0\<rparr> \<and>
   map_of (wallets (fst (event_loop (example_env None)
      [Start ext_syncing (JStr ''xpubA''), Start ext_syncing (JStr ''xpubA''), Resume 0, Resume 0]
      init_daemon))) ''xpubA''
     = Some \<lparr>wallet = WalletObj 5 ''wallets/xpubA'', cmd = 4, config = 3\<rparr>"
  by (simp add: event_loop_def load_wallet_begin_def load_wallet_resume_def
      load_wallet_register_def example_env_def ext_syncing_def init_daemon_def)

section \<open>Authentication and what escapes the handler\<close>

lemma b64_electrum:
  "py_b64decode ''ZWxlY3RydW06ZWxlY3RydW16'' = Inr ''electrum:electrumz''"
  by code_simp

lemma b64_wrong: "py_b64decode ''ZWxlY3RydW06d3Jvbmc='' = Inr ''electrum:wrong''"
  by code_simp

lemma b64_user: "py_b64decode ''dXNlcg=='' = Inr ''user''"
  by code_simp

lemma example_credentials:
  "LOGIN (example_env origin) = ''electrum''" "PASSWORD (example_env origin) = ''electrumz''"
  by (simp_all add: example_env_def)

lemma decode_auth_electrum:
  "decode_auth (example_env origin) (Some ''Basic ZWxlY3RydW06ZWxlY3RydW16'')
     = Inr (Some ''electrum'', Some ''electrumz'')"
  by (simp add: decode_auth_def example_env_def b64_electrum)

lemma decode_auth_wrong:
  "decode_auth (example_env origin) (Some ''Basic ZWxlY3RydW06d3Jvbmc='')
     = Inr (Some ''electrum'', Some ''wrong'')"
  by (simp add: decode_auth_def example_env_def b64_wrong)

lemma decode_auth_user:
  "decode_auth (example_env origin) (Some ''Basic dXNlcg=='') = Inl ValueError"
  by (simp add: decode_auth_def example_env_def b64_user)

text \<open>
  The requests that are answered \<open>Unauthorized\<close>. Whenever \<open>decode_auth\<close> yields a pair of
  credentials other than the configured \<open>LOGIN\<close> and \<open>PASSWORD\<close>, \<open>handle_request\<close> answers
  with code \<open>-32600\<close>, message \<open>Unauthorized\<close> and a null id. The answer is the same for every
  content type and every body (also one that is not JSON at all), for every behaviour of the
  wallet library, and the daemon's state is left as it was: the body is never read.
\<close>

lemma wrong_credentials_unauthorized:
  assumes "decode_auth env (authorization req) = Inr (user, password)"
    and "\<not> (user = Some (LOGIN env) \<and> password = Some (PASSWORD env))"
  shows "handle_request env ext (req\<lparr>content_type := ct, json_body := body\<rparr>) st
           = (Returns (ErrorResponse (- 32600) (Literal ''Unauthorized'') JNull), st)"
  using assms by (auto simp: handle_request_def)

lemma wrong_credentials_unauthorized_witness:
  "handle_request (example_env None) ext_ready
     \<lparr>authorization = Some ''Basic ZWxlY3RydW06d3Jvbmc='', content_type = ''application/json'',
      json_body = Inr (JObj [(''method'', JStr ''get_updates''), (''xpub'', JStr ''xpubA'')])\<rparr>
     two_sessions
   = (Returns (ErrorResponse (- 32600) (Literal ''Unauthorized'') JNull), two_sessions) \<and>
   handle_request (example_env None) ext_ready
     \<lparr>authorization = None, content_type = ''text/plain'', json_body = Inl JSONDecodeError\<rparr>
     two_sessions
   = (Returns (ErrorResponse (- 32600) (Literal ''Unauthorized'') JNull), two_sessions)"
proof -
  let ?r1 = "\<lparr>authorization = Some ''Basic ZWxlY3RydW06d3Jvbmc='',
      content_type = ''application/json'',
      json_body = Inr (JObj [(''method'', JStr ''get_updates''), (''xpub'', JStr ''xpubA'')])\<rparr>"
  let ?r2 = "\<lparr>authorization = None, content_type = ''text/plain'',
      json_body = Inl JSONDecodeError :: exn + json\<rparr>"
  have a: "decode_auth (example_env None) (authorization ?r1)
             = Inr (Some ''electrum'', Some ''wrong'')"
    by (simp add: decode_auth_wrong)
  have b: "decode_auth (example_env None) (authorization ?r2) = Inr (None, None)"
    by (simp add: decode_auth_def)
  have c: "\<not> (Some ''electrum'' = Some (LOGIN (example_env None)) \<and>
              Some ''wrong'' = Some (PASSWORD (example_env None)))"
    by (simp add: example_env_def)
  from wrong_credentials_unauthorized [OF a c, where ct = "content_type ?r1"
         and body = "json_body ?r1" and ext = ext_ready and st = two_sessions]
    wrong_credentials_unauthorized [OF b, where ct = "content_type ?r2"
         and body = "json_body ?r2" and ext = ext_ready and st = two_sessions]
  show ?thesis by simp
qed

lemma b64_colon: "py_b64decode ''dXNlcjpwYTpzcw=='' = Inr ''user:pa:ss''"
  by code_simp

lemma decode_auth_colon:
  "decode_auth (example_env origin) (Some ''Basic dXNlcjpwYTpzcw=='') = Inl ValueError"
  by (simp add: decode_auth_def example_env_def b64_colon)

text \<open>
  Claim C7. Not every request with wrong credentials is answered \<open>Unauthorized\<close>. Basic
  authentication sends \<open>user:password\<close>, and only the first colon separates the two, so
  \<open>user:pa:ss\<close> is the user \<open>user\<close> with the password \<open>pa:ss\<close>, a pair that differs from the
  configured one. \<open>decode_auth\<close> splits at every colon and unpacks the three parts into two
  names, which raises \<^verbatim>\<open>ValueError\<close> (line 133); \<open>handle_request\<close> calls it outside any
  \<^verbatim>\<open>try\<close> block, so the exception leaves the handler and no JSON-RPC object is returned.
\<close>

theorem password_with_colon_escapes:
  "handle_request (example_env None) ext_ready
     \<lparr>authorization = Some ''Basic dXNlcjpwYTpzcw=='', content_type = ''application/json'',
      json_body = Inr (JObj [(''method'', JStr ''get_updates''), (''xpub'', JStr ''xpubA'')])\<rparr>
     two_sessions
   = (Raises ValueError, two_sessions)"
  by (simp add: handle_request_def decode_auth_colon)

text \<open>
  Claim C2. The handler does not answer every request with a JSON-RPC error object. Three requests
  on which an exception leaves \<open>handle_request\<close> instead: an \<open>Authorization\<close> header whose
  payload decodes to \<open>user\<close>, without a colon, so that unpacking the split in \<open>decode_auth\<close>
  raises \<open>ValueError\<close>; a body that is not JSON, sent with the configured credentials and the
  JSON content type, so that parsing it raises; and a body that is a JSON array, on which
  \<open>data.get\<close> raises \<open>AttributeError\<close>. None of the three statements stands inside a
  \<open>try\<close> block.
\<close>

theorem malformed_request_escapes:
  "handle_request (example_env None) ext_ready
     \<lparr>authorization = Some ''Basic dXNlcg=='', content_type = ''application/json'',
      json_body = Inr (JObj [(''method'', JStr ''get_updates''), (''xpub'', JStr ''xpubA'')])\<rparr>
     two_sessions
   = (Raises ValueError, two_sessions) \<and>
   handle_request (example_env None) ext_ready
     \<lparr>authorization = Some ''Basic ZWxlY3RydW06ZWxlY3RydW16'',
      content_type = ''application/json'', json_body = Inl JSONDecodeError\<rparr>
     two_sessions
   = (Raises JSONDecodeError, two_sessions) \<and>
   handle_request (example_env None) ext_ready
     \<lparr>authorization = Some ''Basic ZWxlY3RydW06ZWxlY3RydW16'',
      content_type = ''application/json'', json_body = Inr (JArr [])\<rparr>
     two_sessions
   = (Raises AttributeError, two_sessions)"
  by (simp add: handle_request_def decode_auth_user decode_auth_electrum example_credentials)

section \<open>Dispatch after a failed resolution\<close>

lemma handle_request_authenticated:
  assumes "decode_auth env (authorization req) = Inr (Some (LOGIN env), Some (PASSWORD env))"
    and "content_type req = ''application/json''"
    and "json_body req = Inr (JObj data)"
  shows "handle_request env ext req st = handle_parsed env ext data st"
  using assms by (simp add: handle_request_def)

lemma handle_parsed_raised:
  assumes "truthy (dict_get data ''method'' JNull)"
    and "method_lookup (base_methods env) (dict_get data ''method'' JNull) = Inr builtin"
    and "method_lookup (supported_methods env) (dict_get data ''method'' JNull) = Inr custom"
    and "load_wallet env ext (dict_get data ''xpub'' JNull) st = (Raises e, st1)"
  shows "handle_parsed env ext data st =
     (case builtin of
        Some f \<Rightarrow>
          invoke_custom f (dict_get data ''id'' JNull) (dict_get data ''xpub'' JNull)
            (dict_get data ''params'' (JArr [])) st1
      | None \<Rightarrow>
          (case custom of
             Some f \<Rightarrow>
               invoke_custom f (dict_get data ''id'' JNull) (dict_get data ''xpub'' JNull)
                 (dict_get data ''params'' (JArr [])) st1
           | None \<Rightarrow>
               (Returns (ErrorResponse (- 32601) (Literal ''Error loading wallet'')
                  (dict_get data ''id'' JNull)), st1)))"
  using assms
  by (cases builtin; cases custom) (simp_all add: handle_parsed_def Let_def in_no_tier_def dispatch_def)


text \<open>
  Claim C6. Take a request with the configured credentials and the JSON content type whose
  body is a JSON object naming a method that is truthy and hashable, and let the resolution of
  its wallet identifier raise. If the method is in neither \<open>base_methods\<close> nor
  \<open>supported_methods\<close>, the answer is the error of code \<open>-32601\<close> with the message
  \<open>Error loading wallet\<close> and the id of the request. If it is in one of the two tiers (the
  built-in tier is asked first), the handler goes on and invokes that method with the wallet
  identifier bound, as it does after a resolution that succeeded.
\<close>

theorem resolution_failure_dispatch:
  assumes "decode_auth env (authorization req) = Inr (Some (LOGIN env), Some (PASSWORD env))"
    and "content_type req = ''application/json''"
    and "json_body req = Inr (JObj data)"
    and "truthy (dict_get data ''method'' JNull)"
    and "method_lookup (base_methods env) (dict_get data ''method'' JNull) = Inr builtin"
    and "method_lookup (supported_methods env) (dict_get data ''method'' JNull) = Inr custom"
    and "load_wallet env ext (dict_get data ''xpub'' JNull) st = (Raises e, st1)"
  shows "handle_request env ext req st =
     (case builtin of
        Some f \<Rightarrow>
          invoke_custom f (dict_get data ''id'' JNull) (dict_get data ''xpub'' JNull)
            (dict_get data ''params'' (JArr [])) st1
      | None \<Rightarrow>
          (case custom of
             Some f \<Rightarrow>
               invoke_custom f (dict_get data ''id'' JNull) (dict_get data ''xpub'' JNull)
                 (dict_get data ''params'' (JArr [])) st1
           | None \<Rightarrow>
               (Returns (ErrorResponse (- 32601) (Literal ''Error loading wallet'')
                  (dict_get data ''id'' JNull)), st1)))"
  using assms(4-7) by (simp add: handle_request_authenticated [OF assms(1-3)] handle_parsed_raised)

lemma custom_env_credentials:
  "LOGIN custom_env = ''electrum''" "PASSWORD custom_env = ''electrumz''"
  "b64decode custom_env = py_b64decode"
  "supported_methods custom_env = [(''ping'', \<lambda>c st. (Returns (JStr ''pong''), st))]"
  by (simp_all add: custom_env_def example_env_def)

lemma decode_auth_custom:
  "decode_auth custom_env (Some ''Basic ZWxlY3RydW06ZWxlY3RydW16'')
     = Inr (Some (LOGIN custom_env), Some (PASSWORD custom_env))"
  by (simp add: decode_auth_def custom_env_credentials b64_electrum)

lemma load_failing:
  "load_wallet env ext_failing (JStr ''xpubC'') two_sessions
     = (Raises (LibraryError ''restore failed''), two_sessions\<lparr>next_ref := 8\<rparr>)"
  by (simp add: load_wallet_def load_wallet_begin_def two_sessions_eq ext_failing_def)

theorem resolution_failure_dispatch_witness:
  "handle_request custom_env ext_failing
     \<lparr>authorization = Some ''Basic ZWxlY3RydW06ZWxlY3RydW16'', content_type = ''application/json'',
      json_body = Inr (JObj [(''method'', JStr ''getbalance''), (''xpub'', JStr ''xpubC''),
                              (''id'', JNum 7)])\<rparr>
     two_sessions
   = (Returns (ErrorResponse (- 32601) (Literal ''Error loading wallet'') (JNum 7)),
      two_sessions\<lparr>next_ref := 8\<rparr>) \<and>
   handle_request custom_env ext_failing
     \<lparr>authorization = Some ''Basic ZWxlY3RydW06ZWxlY3RydW16'', content_type = ''application/json'',
      json_body = Inr (JObj [(''method'', JStr ''ping''), (''xpub'', JStr ''xpubC''),
                              (''id'', JNum 8)])\<rparr>
     two_sessions
   = (Returns (ResultResponse (JStr ''pong'') (JNum 8)), two_sessions\<lparr>next_ref := 8\<rparr>) \<and>
   handle_request custom_env ext_failing
     \<lparr>authorization = Some ''Basic ZWxlY3RydW06ZWxlY3RydW16'', content_type = ''application/json'',
      json_body = Inr (JObj [(''method'', JStr ''get_updates''), (''xpub'', JStr ''xpubC''),
                              (''id'', JNum 9)])\<rparr>
     two_sessions
   = (Returns (ErrorResponse (- 32601) (TracebackLastLine KeyError) (JNum 9)),
      two_sessions\<lparr>next_ref := 8\<rparr>)"
proof -
  let ?auth = "Some ''Basic ZWxlY3RydW06ZWxlY3RydW16''"
  let ?d1 = "[(''method'', JStr ''getbalance''), (''xpub'', JStr ''xpubC''), (''id'', JNum 7)]"
  let ?d2 = "[(''method'', JStr ''ping''), (''xpub'', JStr ''xpubC''), (''id'', JNum 8)]"
  let ?d3 = "[(''method'', JStr ''get_updates''), (''xpub'', JStr ''xpubC''), (''id'', JNum 9)]"
  let ?req = "\<lambda>d. \<lparr>authorization = ?auth, content_type = ''application/json'',
                     json_body = Inr (JObj d) :: exn + json\<rparr>"
  let ?st1 = "two_sessions\<lparr>next_ref := 8\<rparr>"
  have auth: "decode_auth custom_env (authorization (?req d))
                = Inr (Some (LOGIN custom_env), Some (PASSWORD custom_env))" for d
    by (simp add: decode_auth_custom)
  have ct: "content_type (?req d) = ''application/json''" for d by simp
  have body: "json_body (?req d) = Inr (JObj d)" for d by simp
  have load: "load_wallet custom_env ext_failing (dict_get d ''xpub'' JNull) two_sessions
                = (Raises (LibraryError ''restore failed''), ?st1)"
    if "dict_get d ''xpub'' JNull = JStr ''xpubC''" for d
    using that by (simp add: load_failing)
  have 1: "handle_request custom_env ext_failing (?req ?d1) two_sessions
             = (Returns (ErrorResponse (- 32601) (Literal ''Error loading wallet'') (JNum 7)), ?st1)"
    using resolution_failure_dispatch [where req = "?req ?d1" and data = ?d1 and env = custom_env and ext = ext_failing
        and st = two_sessions and ?st1.0 = ?st1 and builtin = None and custom = None
        and e = "LibraryError ''restore failed''", OF auth ct body]
    by (simp add: dict_get_def base_methods_def custom_env_credentials load_failing)
  have 2: "handle_request custom_env ext_failing (?req ?d2) two_sessions
             = (Returns (ResultResponse (JStr ''pong'') (JNum 8)), ?st1)"
    using resolution_failure_dispatch [where req = "?req ?d2" and data = ?d2 and env = custom_env and ext = ext_failing
        and st = two_sessions and ?st1.0 = ?st1 and builtin = None
        and custom = "Some (\<lambda>c st. (Returns (JStr ''pong''), st))"
        and e = "LibraryError ''restore failed''", OF auth ct body]
    by (simp add: dict_get_def base_methods_def custom_env_credentials load_failing
        invoke_custom_def call_of_params_def respond_def)
  have inv: "invoke_custom get_updates_method (JNum 9) (JStr ''xpubC'') (JArr []) ?st1
               = (Returns (ErrorResponse (- 32601) (TracebackLastLine KeyError) (JNum 9)), ?st1)"
    by (simp add: invoke_custom_def call_of_params_def respond_def get_updates_method_def
        bind_args_def bound_arg_def get_updates_def two_sessions_eq)
  have 3: "handle_request custom_env ext_failing (?req ?d3) two_sessions
             = (Returns (ErrorResponse (- 32601) (TracebackLastLine KeyError) (JNum 9)), ?st1)"
    using resolution_failure_dispatch [where req = "?req ?d3" and data = ?d3 and env = custom_env and ext = ext_failing
        and st = two_sessions and ?st1.0 = ?st1 and builtin = "Some get_updates_method"
        and custom = None and e = "LibraryError ''restore failed''", OF auth ct body]
    by (simp add: dict_get_def base_methods_def custom_env_credentials load_failing inv)
  from 1 2 3 show ?thesis by simp
qed

section \<open>Built-in methods on a wallet that is not loaded\<close>




















end
